theory Spec2Isabelle
  imports Complex_Main "HOL-Library.AList"
begin

section \<open>Lexer of the current dialect (src/mesh/parser.js, class Lexer)\<close>

subsection \<open>JavaScript numbers\<close>

text \<open>
  Strings are lists of code units below 256. A JavaScript number is a double: a finite
  value, kept as the rational it stands for (\<open>Fin 0\<close> is the positive zero), the
  negative zero, NaN, and the two infinities.
\<close>

datatype number = Fin rat | NegZero | NaN | PInf | NInf

text \<open>The position of the leading bit of a positive integer.\<close>

function log2_floor :: "int \<Rightarrow> int" where
  "log2_floor n = (if n < 2 then 0 else 1 + log2_floor (n div 2))"
  by pat_completeness auto
termination
  by (relation "measure nat") auto

declare log2_floor.simps [simp del]

definition pow2 :: "int \<Rightarrow> rat" where
  "pow2 e = (if 0 \<le> e then 2 ^ nat e else 1 / 2 ^ nat (- e))"

text \<open>The exponent \<open>e\<close> of a positive rational \<open>q\<close>: \<open>pow2 e \<le> q < pow2 (e + 1)\<close>.\<close>

definition binade :: "rat \<Rightarrow> int" where
  "binade q =
     (let (a, b) = quotient_of q;
          e = log2_floor a - log2_floor b
      in if pow2 e \<le> q then e else e - 1)"

text \<open>The nearest integer, the even one of two that are equally near.\<close>

definition round_half_even :: "rat \<Rightarrow> int" where
  "round_half_even x =
     (let (a, b) = quotient_of x; f = a div b; r = a mod b
      in if 2 * r < b then f else if b < 2 * r then f + 1 else if f mod 2 = 0 then f else f + 1)"

text \<open>
  The rounding of every arithmetic operation and of the reading of a decimal numeral
  (IEEE 754 binary64, to nearest, ties to even): a significand of 53 bits in steps of
  \<open>pow2 (e - 52)\<close>, the exponent \<open>e\<close> at least -1022 (below that the steps stay at
  \<open>pow2 (- 1074)\<close>) and at most 1023; a result that would need a larger exponent is an
  infinity, and a result that rounds to nothing is a zero with the sign of the exact
  value.
\<close>

definition round_double :: "rat \<Rightarrow> number" where
  "round_double q =
     (if q = 0 then Fin 0
      else let a = \<bar>q\<bar>;
               e = max (binade a) (- 1022);
               m = round_half_even (a / pow2 (e - 52))
           in if 1023 < e \<or> (e = 1023 \<and> 2 ^ 53 \<le> m) then (if q < 0 then NInf else PInf)
              else if m = 0 then (if q < 0 then NegZero else Fin 0)
              else Fin ((if q < 0 then - 1 else 1) * of_int m * pow2 (e - 52)))"

subsection \<open>Tokens\<close>

datatype ttype =
  INDENT | DEDENT | NEWLINE | NUMBER_LITERAL | STR_LITERAL | BOOL_LITERAL
  | OBJ_IDENTIFIER | IDENTIFIER | NUMBER | SYMBOL

datatype tvalue = NoValue | NumValue number | StrValue string | BoolValue bool

text \<open>A token object \<open>{type, value, line}\<close>; a field the source leaves out is
  \<open>NoValue\<close> or \<open>None\<close>.\<close>

datatype token = Token (ttype: ttype) (tvalue: tvalue) (line: "nat option")

subsection \<open>Character classes of the regular expressions\<close>

definition is_digit :: "char \<Rightarrow> bool" where
  "is_digit c = (c \<in> set ''0123456789'')"

definition is_ident_start :: "char \<Rightarrow> bool" where
  "is_ident_start c =
     (c \<in> set ''abcdefghijklmnopqrstuvwxyzABCDEFGHIJKLMNOPQRSTUVWXYZ_'')"

definition is_ident_char :: "char \<Rightarrow> bool" where
  "is_ident_char c = (is_ident_start c \<or> is_digit c)"

definition is_symbol :: "char \<Rightarrow> bool" where
  "is_symbol c = (c \<in> set ''=,.+-*/()[]{}<>!'')"

text \<open>\<open>.\<close> in a JavaScript regular expression matches everything but a line terminator.\<close>

definition is_line_terminator :: "char \<Rightarrow> bool" where
  "is_line_terminator c = (c = CHR 0x0A \<or> c = CHR 0x0D)"

text \<open>The characters \<open>String.prototype.trim\<close> removes, among the code units below 256.\<close>

definition is_space :: "char \<Rightarrow> bool" where
  "is_space c = (c \<in> set [CHR 0x09, CHR 0x0A, CHR 0x0B, CHR 0x0C, CHR 0x0D, CHR 0x20, CHR 0xA0])"

definition trim :: "string \<Rightarrow> string" where
  "trim s = rev (dropWhile is_space (rev (dropWhile is_space s)))"

definition startsWith :: "string \<Rightarrow> string \<Rightarrow> bool" where
  "startsWith s p = (take (length p) s = p)"

text \<open>\<open>val.slice(1, -1)\<close>: empty when \<open>val\<close> has fewer than three characters.\<close>

definition slice_inner :: "string \<Rightarrow> string" where
  "slice_inner s = butlast (tl s)"

subsection \<open>The alternatives of the token regular expression, in the source's order\<close>

text \<open>
  Each matcher answers whether its alternative matches at the start of the string and,
  if so, how many characters the match takes. The alternatives are, in this order: a
  comment (two minus signs and the rest up to a line terminator); a number between
  exclamation marks (an optional minus sign, digits, optionally a dot, at least one
  digit); a string between double quotes with no double quote inside; an object
  identifier between hash signs; the eight two-character operators; an identifier; a
  run of digits; one of the single symbols.
\<close>

definition orelse :: "'a option \<Rightarrow> 'a option \<Rightarrow> 'a option" where
  "orelse a b = (case a of None \<Rightarrow> b | Some x \<Rightarrow> Some x)"

fun match_comment :: "string \<Rightarrow> nat option" where
  "match_comment (a # b # r) =
     (if a = CHR ''-'' \<and> b = CHR ''-''
      then Some (2 + length (takeWhile (\<lambda>c. \<not> is_line_terminator c) r)) else None)"
| "match_comment _ = None"

fun match_number_literal :: "string \<Rightarrow> nat option" where
  "match_number_literal [] = None"
| "match_number_literal (c # r) =
     (if c \<noteq> CHR ''!'' then None
      else let sg = (if r \<noteq> [] \<and> hd r = CHR ''-'' then 1 else 0);
               r1 = drop sg r;
               d1 = takeWhile is_digit r1;
               r2 = dropWhile is_digit r1
           in (case r2 of
                 [] \<Rightarrow> None
               | x # r3 \<Rightarrow>
                   if x = CHR ''.''
                   then (let d2 = takeWhile is_digit r3; r4 = dropWhile is_digit r3
                         in if d2 \<noteq> [] \<and> r4 \<noteq> [] \<and> hd r4 = CHR ''!''
                            then Some (1 + sg + length d1 + 1 + length d2 + 1) else None)
                   else if x = CHR ''!'' \<and> d1 \<noteq> []
                   then Some (1 + sg + length d1 + 1) else None))"

fun match_string :: "string \<Rightarrow> nat option" where
  "match_string [] = None"
| "match_string (c # r) =
     (if c = CHR 0x22 \<and> CHR 0x22 \<in> set r
      then Some (length (takeWhile (\<lambda>x. x \<noteq> CHR 0x22) r) + 2) else None)"

fun match_obj_identifier :: "string \<Rightarrow> nat option" where
  "match_obj_identifier (c # d # r) =
     (if c = CHR ''#'' \<and> is_ident_start d
      then (let rest = dropWhile is_ident_char r
            in if rest \<noteq> [] \<and> hd rest = CHR ''#''
               then Some (length (takeWhile is_ident_char r) + 3) else None)
      else None)"
| "match_obj_identifier _ = None"

fun match_operator2 :: "string \<Rightarrow> nat option" where
  "match_operator2 (a # b # r) =
     (if b = CHR ''='' \<and> a \<in> set ''+-*/=!<>'' then Some 2 else None)"
| "match_operator2 _ = None"

fun match_identifier :: "string \<Rightarrow> nat option" where
  "match_identifier [] = None"
| "match_identifier (c # r) =
     (if is_ident_start c then Some (1 + length (takeWhile is_ident_char r)) else None)"

definition match_digits :: "string \<Rightarrow> nat option" where
  "match_digits s = (if takeWhile is_digit s \<noteq> [] then Some (length (takeWhile is_digit s)) else None)"

fun match_symbol :: "string \<Rightarrow> nat option" where
  "match_symbol [] = None"
| "match_symbol (c # r) = (if is_symbol c then Some 1 else None)"

definition token_regex_at :: "string \<Rightarrow> nat option" where
  "token_regex_at s =
     orelse (match_comment s) (orelse (match_number_literal s) (orelse (match_string s)
       (orelse (match_obj_identifier s) (orelse (match_operator2 s)
         (orelse (match_identifier s) (orelse (match_digits s) (match_symbol s)))))))"

subsection \<open>parseFloat on the text between the two exclamation marks\<close>

definition digit_of :: "char \<Rightarrow> int" where
  "digit_of c = of_char c - 48"

definition digits_val :: "string \<Rightarrow> int" where
  "digits_val ds = foldl (\<lambda>a c. 10 * a + digit_of c) 0 ds"

text \<open>
  \<open>parseFloat\<close> reads the longest numeric prefix: an optional sign, digits, an optional
  fraction (the lexer never passes an exponent); with no digit at all the result is NaN.
  The result is the double nearest to the decimal value.
\<close>

definition parseFloat :: "string \<Rightarrow> number" where
  "parseFloat s =
     (let neg = (s \<noteq> [] \<and> hd s = CHR ''-'');
          r = (if neg then tl s else s);
          ip = takeWhile is_digit r;
          r2 = dropWhile is_digit r;
          fp = (if r2 \<noteq> [] \<and> hd r2 = CHR ''.'' then takeWhile is_digit (tl r2) else []);
          q = of_int (digits_val ip) + of_int (digits_val fp) / 10 ^ length fp
      in if ip = [] \<and> fp = [] then NaN
         else if q = 0 then (if neg then NegZero else Fin 0)
         else round_double (if neg then - q else q))"

subsection \<open>tokenizeLine\<close>

text \<open>The if-chain that turns a matched text into a token.\<close>

definition classify :: "string \<Rightarrow> nat \<Rightarrow> token" where
  "classify v lno =
     (if startsWith v ''!'' then Token NUMBER_LITERAL (NumValue (parseFloat (slice_inner v))) (Some lno)
      else if startsWith v [CHR 0x22] then Token STR_LITERAL (StrValue (slice_inner v)) (Some lno)
      else if v = ''True'' \<or> v = ''False'' then Token BOOL_LITERAL (BoolValue (v = ''True'')) (Some lno)
      else if startsWith v ''#'' then Token OBJ_IDENTIFIER (StrValue (slice_inner v)) (Some lno)
      else if v \<noteq> [] \<and> is_ident_start (hd v) then Token IDENTIFIER (StrValue v) (Some lno)
      else if v \<noteq> [] \<and> (\<forall>c \<in> set v. is_digit c) then Token NUMBER (StrValue v) (Some lno)
      else Token SYMBOL (StrValue v) (Some lno))"

lemma token_regex_at_pos: "token_regex_at s = Some n \<Longrightarrow> 0 < n"
  by (cases s rule: match_comment.cases)
     (auto simp: token_regex_at_def orelse_def match_digits_def Let_def
           split: option.splits if_splits list.splits)

text \<open>
  The loop \<open>while ((match = regex.exec(line)) !== null)\<close>: the search starts where the
  last match ended, a character at which no alternative matches is passed over, and a
  comment ends the line.
\<close>

function tokenizeLine :: "string \<Rightarrow> nat \<Rightarrow> token list" where
  "tokenizeLine [] lno = []"
| "tokenizeLine (c # cs) lno =
     (case token_regex_at (c # cs) of
        None \<Rightarrow> tokenizeLine cs lno
      | Some n \<Rightarrow>
          if startsWith (take n (c # cs)) ''--'' then []
          else classify (take n (c # cs)) lno # tokenizeLine (drop n (c # cs)) lno)"
  by pat_completeness auto
termination
  by (relation "measure (\<lambda>(s, lno). length s)") (auto dest: token_regex_at_pos)

subsection \<open>tokenize\<close>

text \<open>\<open>input.split(/\r?\n/)\<close>\<close>

fun split_lines :: "string \<Rightarrow> string \<Rightarrow> string list" where
  "split_lines cur [] = [rev cur]"
| "split_lines cur [c] = (if c = CHR 0x0A then [rev cur, []] else [rev (c # cur)])"
| "split_lines cur (c # d # cs) =
     (if c = CHR 0x0A then rev cur # split_lines [] (d # cs)
      else if c = CHR 0x0D \<and> d = CHR 0x0A then rev cur # split_lines [] cs
      else split_lines (c # cur) (d # cs))"

text \<open>The width of the leading blanks, a tab counting four columns: a count far below
  the first integer that a double cannot hold, so the sum in the source is exact.\<close>

definition indent_of :: "string \<Rightarrow> nat" where
  "indent_of l =
     sum_list (map (\<lambda>c. if c = CHR 0x09 then 4 else 1)
                   (takeWhile (\<lambda>c. c = CHR 0x20 \<or> c = CHR 0x09) l))"

text \<open>
  The lexer's mutable fields. \<open>indentStack\<close> is the JavaScript array, its top at the end;
  reading the top of an empty array gives \<open>undefined\<close>, and both comparisons with it are false.
\<close>

record lexer =
  tokens :: "token list"
  indentStack :: "nat list"

function dedent_loop :: "nat \<Rightarrow> nat \<Rightarrow> lexer \<Rightarrow> lexer" where
  "dedent_loop indent lno lx =
     (if indentStack lx \<noteq> [] \<and> indent < last (indentStack lx)
      then dedent_loop indent lno
             (lx\<lparr>tokens := tokens lx @ [Token DEDENT NoValue (Some lno)],
                 indentStack := butlast (indentStack lx)\<rparr>)
      else lx)"
  by pat_completeness auto
termination
  by (relation "measure (\<lambda>(i, lno, lx). length (indentStack lx))") auto

declare dedent_loop.simps [simp del]

definition handle_line :: "string \<Rightarrow> nat \<Rightarrow> lexer \<Rightarrow> lexer" where
  "handle_line l lno lx =
     (if length (trim l) = 0 \<or> startsWith (trim l) ''--'' then lx
      else let indent = indent_of l;
               lx1 = (if indentStack lx \<noteq> [] \<and> indent > last (indentStack lx)
                      then lx\<lparr>tokens := tokens lx @ [Token INDENT (NumValue (Fin (of_nat indent))) (Some lno)],
                              indentStack := indentStack lx @ [indent]\<rparr>
                      else dedent_loop indent lno lx)
           in lx1\<lparr>tokens := tokens lx1 @ tokenizeLine (trim l) lno @ [Token NEWLINE NoValue (Some lno)]\<rparr>)"

fun tokenize_lines :: "string list \<Rightarrow> nat \<Rightarrow> lexer \<Rightarrow> lexer" where
  "tokenize_lines [] i lx = lx"
| "tokenize_lines (l # ls) i lx = tokenize_lines ls (i + 1) (handle_line l (i + 1) lx)"

function final_dedents :: "lexer \<Rightarrow> lexer" where
  "final_dedents lx =
     (if length (indentStack lx) > 1
      then final_dedents (lx\<lparr>tokens := tokens lx @ [Token DEDENT NoValue None],
                             indentStack := butlast (indentStack lx)\<rparr>)
      else lx)"
  by pat_completeness auto
termination
  by (relation "measure (\<lambda>lx. length (indentStack lx))") auto

declare final_dedents.simps [simp del]

text \<open>The constructor sets \<open>tokens = []\<close> and \<open>indentStack = [0]\<close>.\<close>

definition Lexer :: lexer where
  "Lexer = \<lparr>tokens = [], indentStack = [0]\<rparr>"

definition tokenize_run :: "string \<Rightarrow> lexer" where
  "tokenize_run input = final_dedents (tokenize_lines (split_lines [] input) 0 Lexer)"

definition tokenize :: "string \<Rightarrow> token list" where
  "tokenize input = tokens (tokenize_run input)"

subsection \<open>Counting the structural tokens\<close>

definition count_type :: "ttype \<Rightarrow> token list \<Rightarrow> nat" where
  "count_type ty ts = length (filter (\<lambda>t. ttype t = ty) ts)"

text \<open>What the loops of \<open>tokenize\<close> keep true: the stack is never empty, its bottom is the
  base level 0, and every level above the base stands for an INDENT not yet closed.\<close>

definition stack_inv :: "lexer \<Rightarrow> bool" where
  "stack_inv lx =
     (indentStack lx \<noteq> [] \<and> hd (indentStack lx) = 0 \<and>
      count_type INDENT (tokens lx) + 1 = count_type DEDENT (tokens lx) + length (indentStack lx))"

section \<open>Lexer of the bracket dialect (src/unnamed/part 000, first class Lexer)\<close>

datatype token0 =
  NEWLINE0 | IDENTIFIER0 string | NUMBER0 string | LBRACKET0 | RBRACKET0
  | SYMBOL0 string | INDENT0 int | DEDENT0

definition is_symbol0 :: "char \<Rightarrow> bool" where
  "is_symbol0 c = (c \<in> set ''=,.+-*/(){}<>![]'')"

definition is_blank :: "char \<Rightarrow> bool" where
  "is_blank c = (c = CHR 0x20 \<or> c = CHR 0x09)"

fun match_comment0 :: "string \<Rightarrow> nat option" where
  "match_comment0 [] = None"
| "match_comment0 (c # r) =
     (if c = CHR ''#'' then Some (1 + length (takeWhile (\<lambda>c. \<not> is_line_terminator c) r)) else None)"

fun match_newline0 :: "string \<Rightarrow> nat option" where
  "match_newline0 [] = None"
| "match_newline0 (c # r) = (if c = CHR 0x0A then Some 1 else None)"

definition match_blanks0 :: "string \<Rightarrow> nat option" where
  "match_blanks0 s = (if takeWhile is_blank s \<noteq> [] then Some (length (takeWhile is_blank s)) else None)"

text \<open>Digits, then optionally a dot and at least one more digit.\<close>

definition match_number0 :: "string \<Rightarrow> nat option" where
  "match_number0 s =
     (let d1 = takeWhile is_digit s; r = dropWhile is_digit s
      in if d1 = [] then None
         else if r \<noteq> [] \<and> hd r = CHR ''.'' \<and> takeWhile is_digit (tl r) \<noteq> []
         then Some (length d1 + 1 + length (takeWhile is_digit (tl r)))
         else Some (length d1))"

fun match_operator0 :: "string \<Rightarrow> nat option" where
  "match_operator0 (a # b # r) =
     (if b = CHR ''='' \<and> a \<in> set ''=!<>'' then Some 2 else None)"
| "match_operator0 _ = None"

fun match_symbol0 :: "string \<Rightarrow> nat option" where
  "match_symbol0 [] = None"
| "match_symbol0 (c # r) = (if is_symbol0 c then Some 1 else None)"

definition tokenRegex_at :: "string \<Rightarrow> nat option" where
  "tokenRegex_at s =
     orelse (match_comment0 s) (orelse (match_newline0 s) (orelse (match_blanks0 s)
       (orelse (match_identifier s) (orelse (match_number0 s)
         (orelse (match_operator0 s) (match_symbol0 s))))))"

lemma tokenRegex_at_pos: "tokenRegex_at s = Some n \<Longrightarrow> 0 < n"
  by (cases s rule: match_operator0.cases)
     (auto simp: tokenRegex_at_def orelse_def match_blanks0_def match_number0_def Let_def
           split: option.splits if_splits)

text \<open>The lexer's fields; \<open>currentIndent\<close> is a JavaScript number and can go below zero.\<close>

record lexer0 =
  tokens0 :: "token0 list"
  currentIndent :: int

function dedent_loop0 :: "nat \<Rightarrow> lexer0 \<Rightarrow> lexer0" where
  "dedent_loop0 spaces lx =
     (if int spaces < currentIndent lx
      then dedent_loop0 spaces
             (lx\<lparr>tokens0 := tokens0 lx @ [DEDENT0],
                 currentIndent := (if currentIndent lx - 4 < 0 then 0 else currentIndent lx - 4)\<rparr>)
      else lx)"
  by pat_completeness auto
termination
  by (relation "measure (\<lambda>(spaces, lx). nat (currentIndent lx))") auto

declare dedent_loop0.simps [simp del]

text \<open>
  \<open>handleIndentation\<close>, on the input from \<open>lastIndex\<close> on: it answers the input left after
  the blanks it has passed and the new fields.
\<close>

definition handleIndentation :: "string \<Rightarrow> lexer0 \<Rightarrow> string \<times> lexer0" where
  "handleIndentation rest lx =
     (let spaces = sum_list (map (\<lambda>c. if c = CHR 0x09 then 4 else 1) (takeWhile is_blank rest));
          after = dropWhile is_blank rest
      in if after \<noteq> [] \<and> (hd after = CHR 0x0A \<or> hd after = CHR ''#'') then (after, lx)
         else if int spaces > currentIndent lx
         then (after, lx\<lparr>tokens0 := tokens0 lx @ [INDENT0 (int spaces - currentIndent lx)],
                         currentIndent := int spaces\<rparr>)
         else if int spaces < currentIndent lx
         then (after, (dedent_loop0 spaces lx)\<lparr>currentIndent := int spaces\<rparr>)
         else (after, lx))"

definition classify0 :: "string \<Rightarrow> token0" where
  "classify0 v =
     (if is_ident_start (hd v) then IDENTIFIER0 v
      else if is_digit (hd v) then NUMBER0 v
      else if v = ''['' then LBRACKET0
      else if v = '']'' then RBRACKET0
      else SYMBOL0 v)"

lemma handleIndentation_length: "length (fst (handleIndentation rest lx)) \<le> length rest"
  by (simp add: handleIndentation_def Let_def length_dropWhile_le)

function regex_loop :: "string \<Rightarrow> lexer0 \<Rightarrow> lexer0" where
  "regex_loop [] lx = lx"
| "regex_loop (c # cs) lx =
     (case tokenRegex_at (c # cs) of
        None \<Rightarrow> regex_loop cs lx
      | Some n \<Rightarrow>
          let v = take n (c # cs); rest = drop n (c # cs)
          in if v = [CHR 0x0A]
             then regex_loop (fst (handleIndentation rest (lx\<lparr>tokens0 := tokens0 lx @ [NEWLINE0]\<rparr>)))
                             (snd (handleIndentation rest (lx\<lparr>tokens0 := tokens0 lx @ [NEWLINE0]\<rparr>)))
             else if startsWith v ''#'' \<or> (\<forall>x \<in> set v. is_blank x) then regex_loop rest lx
             else regex_loop rest (lx\<lparr>tokens0 := tokens0 lx @ [classify0 v]\<rparr>))"
  by pat_completeness auto
termination
proof (relation "measure (\<lambda>(s, lx). length s)", goal_cases)
  case 1
  show ?case by simp
next
  case (2 c cs lx)
  show ?case by simp
next
  case (3 c cs lx n v rest)
  from tokenRegex_at_pos[OF 3(1)] 3(3)
  have "length rest < length (c # cs)" by (cases n) auto
  with handleIndentation_length[of rest "lx\<lparr>tokens0 := tokens0 lx @ [NEWLINE0]\<rparr>"]
  show ?case by (simp add: case_prod_beta)
next
  case (4 c cs lx n v rest)
  from tokenRegex_at_pos[OF 4(1)] 4(3) show ?case by (cases n) auto
next
  case (5 c cs lx n v rest)
  from tokenRegex_at_pos[OF 5(1)] 5(3) show ?case by (cases n) auto
qed

function closing_dedents :: "lexer0 \<Rightarrow> lexer0" where
  "closing_dedents lx =
     (if currentIndent lx > 0
      then closing_dedents (lx\<lparr>tokens0 := tokens0 lx @ [DEDENT0], currentIndent := currentIndent lx - 4\<rparr>)
      else lx)"
  by pat_completeness auto
termination
  by (relation "measure (\<lambda>lx. nat (currentIndent lx))") auto

declare closing_dedents.simps [simp del]

definition tokenize0 :: "string \<Rightarrow> token0 list" where
  "tokenize0 input =
     (let start = handleIndentation input \<lparr>tokens0 = [], currentIndent = 0\<rparr>
      in tokens0 (closing_dedents (regex_loop (fst start) (snd start))))"


definition is_INDENT0 :: "token0 \<Rightarrow> bool" where
  "is_INDENT0 t = (case t of INDENT0 n \<Rightarrow> True | _ \<Rightarrow> False)"

text \<open>Four lines, each nested block indented by two more columns:
  \<^verbatim>\<open>a\<close>, \<^verbatim>\<open>  b\<close>, \<^verbatim>\<open>    c\<close>, \<^verbatim>\<open>d\<close>.\<close>

definition two_column_program :: string where
  "two_column_program =
     ''a'' @ [CHR 0x0A] @ ''  b'' @ [CHR 0x0A] @ ''    c'' @ [CHR 0x0A] @ ''d''"

section \<open>Interpreter (src/mesh/parser.js, classes Scope and Interpreter)\<close>

subsection \<open>Syntax trees and values\<close>

datatype literal = LNumber number | LString string | LBoolean bool

datatype expr =
  Literal literal
  | Identifier string
  | ArrayLiteral "expr list"
  | BinaryExpression expr string expr
  | CallExpression expr "expr list"
  | MemberExpression expr string
  | EvalCall expr

datatype stmt =
  ImportStatement string
  | FunctionDeclaration string "string list" "stmt list"
  | ObjectDefinition string "string option" "stmt list"
  | Assignment string string expr
  | IfStatement expr "stmt list" "(expr \<times> stmt list) list" "stmt list option"
  | WhileStatement expr "stmt list"
  | ForStatement string expr expr "stmt list"
  | ReturnStatement expr
  | BreakStatement
  | ContinueStatement
  | ExpressionStatement expr

text \<open>
  Runtime values. A \<open>Scope\<close> and an object created by an object definition are mutable
  JavaScript objects, so a value refers to them by address. A closure is the arrow
  function made by a function declaration: it keeps the parameter names, the body and
  the scope of the declaration. Functions and objects that come from the embedding
  page are opaque and named.
\<close>

datatype val =
  VUndefined | VNull | VBool bool | VNum number | VStr string
  | VArray "val list"
  | VObject nat
  | VClosure "string list" "stmt list" nat
  | VHostFunction string
  | VHostObject string

text \<open>
  The errors thrown: \<open>Undefined: x\<close> and the two execution errors of the current
  interpreter, \<open>Undefined variable: x\<close> of the older one, the \<open>TypeError\<close> of JavaScript
  for a call of something that is no function, and whatever the embedding page throws.
\<close>

datatype error =
  UndefinedName string
  | NotAFunction
  | PropertyOfNullish string val
  | UndefinedVariable string
  | TypeError
  | HostFailure string

text \<open>
  The outcome of a computation: a result, an error thrown, no answer within the bound
  on the depth of the computation (see below), or \<open>Concurrent\<close>: the source has started
  two computations that can both suspend, and the order in which their steps then run
  is decided by the job queue of JavaScript, which is not modelled.
\<close>

datatype 'a result = Ok 'a | Thrown error | OutOfFuel | Concurrent

definition andThen :: "'a result \<Rightarrow> ('a \<Rightarrow> 'b result) \<Rightarrow> 'b result" where
  "andThen r f =
     (case r of Ok x \<Rightarrow> f x | Thrown e \<Rightarrow> Thrown e | OutOfFuel \<Rightarrow> OutOfFuel
      | Concurrent \<Rightarrow> Concurrent)"

text \<open>
  An instance of \<open>Scope\<close>. The field \<open>values\<close> is a JavaScript \<open>Map\<close>: an association
  list in insertion order, in which \<open>set\<close> on a key already present replaces the value
  in place (\<open>AList.update\<close>). The field \<open>isObject\<close> is never read and is left out.
\<close>

record frame =
  valuesMap :: "(string \<times> val) list"
  parent :: "nat option"

text \<open>
  The mutable state: the scopes and the objects made so far, by address, and the fields
  \<open>evalCache\<close>, \<open>stop\<close> and \<open>opCounter\<close> of the interpreter. The global scope is the
  scope at address 0. The interpreter only reads \<open>stop\<close>, apart from \<open>run\<close>, which
  clears it; the page may set it while the interpreter yields, which is not modelled.
\<close>

record state =
  frames :: "frame list"
  objects :: "(string \<times> val) list list"
  evalCache :: "(string \<times> stmt list) list"
  stop :: bool
  opCounter :: nat

text \<open>
  What the interpreter takes from outside the repository's code:
  \<^item> \<open>compile\<close>: \<open>new deps.Parser(new deps.Lexer(code).tokenize()).parse().body\<close>, the
    lexer and parser passed to the constructor, which may throw;
  \<^item> \<open>resolve_module\<close>: \<open>deps.ModuleManager.resolve\<close> and the dynamic \<open>import\<close>;
  \<^item> \<open>call_host\<close>: a call of a function of the page, with \<open>this\<close> and the arguments;
  \<^item> \<open>js_operator\<close>: the JavaScript operators on operands that are not both numbers
    (coercions, strings, identity of objects);
  \<^item> \<open>js_to_string\<close>, \<open>js_to_number\<close>: \<open>String\<close> and \<open>Number\<close> on values whose conversion
    JavaScript defines by more than a case distinction;
  \<^item> \<open>js_property\<close>, \<open>js_entries\<close>: properties of arrays, strings, functions and host
    objects, and the properties every object inherits.
\<close>

record host =
  compile :: "string \<Rightarrow> error + stmt list"
  resolve_module :: "string \<Rightarrow> error + val"
  call_host :: "string \<Rightarrow> val \<Rightarrow> val list \<Rightarrow> error + val"
  js_operator :: "string \<Rightarrow> val \<Rightarrow> val \<Rightarrow> val"
  js_to_string :: "val \<Rightarrow> string"
  js_to_number :: "val \<Rightarrow> number"
  js_property :: "val \<Rightarrow> string \<Rightarrow> val"
  js_entries :: "val \<Rightarrow> (string \<times> val) list"

subsection \<open>JavaScript primitives used by the interpreter\<close>

definition literal_value :: "literal \<Rightarrow> val" where
  "literal_value l = (case l of LNumber n \<Rightarrow> VNum n | LString s \<Rightarrow> VStr s | LBoolean b \<Rightarrow> VBool b)"

definition truthy :: "val \<Rightarrow> bool" where
  "truthy v =
     (case v of
        VUndefined \<Rightarrow> False | VNull \<Rightarrow> False | VBool b \<Rightarrow> b
      | VNum n \<Rightarrow> (case n of Fin r \<Rightarrow> r \<noteq> 0 | NegZero \<Rightarrow> False | NaN \<Rightarrow> False
                  | PInf \<Rightarrow> True | NInf \<Rightarrow> True)
      | VStr s \<Rightarrow> s \<noteq> []
      | _ \<Rightarrow> True)"

definition is_object :: "val \<Rightarrow> bool" where
  "is_object v = (case v of VObject a \<Rightarrow> True | VArray xs \<Rightarrow> True | VHostObject x \<Rightarrow> True | VNull \<Rightarrow> True | _ \<Rightarrow> False)"

definition is_function :: "val \<Rightarrow> bool" where
  "is_function v = (case v of VClosure ps b sc \<Rightarrow> True | VHostFunction x \<Rightarrow> True | _ \<Rightarrow> False)"

text \<open>
  The arithmetic of doubles. The sign of a zero result follows IEEE 754: a sum is the
  negative zero only when both operands are, a product or quotient has the sign that
  its operands give.
\<close>

definition is_zero :: "number \<Rightarrow> bool" where
  "is_zero n = (n = Fin 0 \<or> n = NegZero)"

definition is_inf :: "number \<Rightarrow> bool" where
  "is_inf n = (n = PInf \<or> n = NInf)"

definition negative :: "number \<Rightarrow> bool" where
  "negative n = (case n of Fin q \<Rightarrow> q < 0 | NegZero \<Rightarrow> True | NInf \<Rightarrow> True | _ \<Rightarrow> False)"

definition num_value :: "number \<Rightarrow> rat" where
  "num_value n = (case n of Fin q \<Rightarrow> q | _ \<Rightarrow> 0)"

definition signed_zero :: "bool \<Rightarrow> number" where
  "signed_zero neg = (if neg then NegZero else Fin 0)"

definition signed_inf :: "bool \<Rightarrow> number" where
  "signed_inf neg = (if neg then NInf else PInf)"

definition num_neg :: "number \<Rightarrow> number" where
  "num_neg n =
     (case n of Fin q \<Rightarrow> if q = 0 then NegZero else Fin (- q) | NegZero \<Rightarrow> Fin 0
      | NaN \<Rightarrow> NaN | PInf \<Rightarrow> NInf | NInf \<Rightarrow> PInf)"

definition num_add :: "number \<Rightarrow> number \<Rightarrow> number" where
  "num_add a b =
     (if a = NaN \<or> b = NaN then NaN
      else if is_inf a \<and> is_inf b then (if a = b then a else NaN)
      else if is_inf a then a
      else if is_inf b then b
      else if a = NegZero \<and> b = NegZero then NegZero
      else round_double (num_value a + num_value b))"

definition num_sub :: "number \<Rightarrow> number \<Rightarrow> number" where
  "num_sub a b = num_add a (num_neg b)"

definition num_mul :: "number \<Rightarrow> number \<Rightarrow> number" where
  "num_mul a b =
     (if a = NaN \<or> b = NaN then NaN
      else if (is_inf a \<and> is_zero b) \<or> (is_zero a \<and> is_inf b) then NaN
      else if is_inf a \<or> is_inf b then signed_inf (negative a \<noteq> negative b)
      else if is_zero a \<or> is_zero b then signed_zero (negative a \<noteq> negative b)
      else round_double (num_value a * num_value b))"

definition num_div :: "number \<Rightarrow> number \<Rightarrow> number" where
  "num_div a b =
     (if a = NaN \<or> b = NaN then NaN
      else if (is_inf a \<and> is_inf b) \<or> (is_zero a \<and> is_zero b) then NaN
      else if is_inf a \<or> is_zero b then signed_inf (negative a \<noteq> negative b)
      else if is_inf b \<or> is_zero a then signed_zero (negative a \<noteq> negative b)
      else round_double (num_value a / num_value b))"

text \<open>Comparison: NaN compares with nothing, the two zeros are equal.\<close>

definition num_eq :: "number \<Rightarrow> number \<Rightarrow> bool" where
  "num_eq a b =
     (a \<noteq> NaN \<and> b \<noteq> NaN \<and>
      (if is_inf a \<or> is_inf b then a = b else num_value a = num_value b))"

definition num_lt :: "number \<Rightarrow> number \<Rightarrow> bool" where
  "num_lt a b =
     (a \<noteq> NaN \<and> b \<noteq> NaN \<and> a \<noteq> PInf \<and> b \<noteq> NInf \<and>
      (a = NInf \<or> b = PInf \<or> num_value a < num_value b))"

definition num_le :: "number \<Rightarrow> number \<Rightarrow> bool" where
  "num_le a b = (num_lt a b \<or> num_eq a b)"

text \<open>\<open>i++\<close>\<close>

definition num_succ :: "number \<Rightarrow> number" where
  "num_succ n = num_add n (Fin 1)"

text \<open>The operators of the two \<open>switch\<close> statements, on two numbers; on other operands
  they are JavaScript's business.\<close>

definition js_binop :: "host \<Rightarrow> string \<Rightarrow> val \<Rightarrow> val \<Rightarrow> val" where
  "js_binop h op l r =
     (case (l, r) of
        (VNum a, VNum b) \<Rightarrow>
          if op = ''+'' then VNum (num_add a b)
          else if op = ''-'' then VNum (num_sub a b)
          else if op = ''*'' then VNum (num_mul a b)
          else if op = ''/'' then VNum (num_div a b)
          else if op = ''=='' then VBool (num_eq a b)
          else if op = ''!='' then VBool (\<not> num_eq a b)
          else if op = ''>'' then VBool (num_lt b a)
          else if op = ''<'' then VBool (num_lt a b)
          else if op = ''>='' then VBool (num_le b a)
          else if op = ''<='' then VBool (num_le a b)
          else js_operator h op l r
      | _ \<Rightarrow> js_operator h op l r)"

definition binary_switch :: "host \<Rightarrow> string \<Rightarrow> val \<Rightarrow> val \<Rightarrow> val" where
  "binary_switch h op l r =
     (if op \<in> set [''+'', ''-'', ''*'', ''/'', ''=='', ''!='', ''>'', ''<'', ''>='', ''<='']
      then js_binop h op l r else VNull)"

definition js_String :: "host \<Rightarrow> val \<Rightarrow> string" where
  "js_String h v = (case v of VStr s \<Rightarrow> s | _ \<Rightarrow> js_to_string h v)"

definition js_Number :: "host \<Rightarrow> val \<Rightarrow> number" where
  "js_Number h v =
     (case v of VNum n \<Rightarrow> n | VUndefined \<Rightarrow> NaN | VNull \<Rightarrow> Fin 0
      | VBool b \<Rightarrow> Fin (if b then 1 else 0) | _ \<Rightarrow> js_to_number h v)"

subsection \<open>class Scope\<close>

definition frame_at :: "state \<Rightarrow> nat \<Rightarrow> frame" where
  "frame_at s a = (if a < length (frames s) then frames s ! a else \<lparr>valuesMap = [], parent = None\<rparr>)"

definition has :: "state \<Rightarrow> nat \<Rightarrow> string \<Rightarrow> bool" where
  "has s a name = (map_of (valuesMap (frame_at s a)) name \<noteq> None)"

text \<open>\<open>new Scope(parent)\<close>: the new frame gets the next address.\<close>

definition new_Scope :: "nat option \<Rightarrow> state \<Rightarrow> nat \<times> state" where
  "new_Scope p s = (length (frames s), s\<lparr>frames := frames s @ [\<lparr>valuesMap = [], parent = p\<rparr>]\<rparr>)"

text \<open>
  \<open>get\<close> and \<open>assign\<close> recurse on the parent. A parent was always created before its
  child, so its address is smaller; the test \<open>p < a\<close> only makes the recursion total.
\<close>

function Scope_get :: "state \<Rightarrow> nat \<Rightarrow> string \<Rightarrow> val" where
  "Scope_get s a name =
     (case map_of (valuesMap (frame_at s a)) name of
        Some v \<Rightarrow> v
      | None \<Rightarrow> (case parent (frame_at s a) of
                   None \<Rightarrow> VUndefined
                 | Some p \<Rightarrow> if p < a then Scope_get s p name else VUndefined))"
  by pat_completeness auto
termination
  by (relation "measure (\<lambda>(s, a, name). a)") auto

declare Scope_get.simps [simp del]

definition Scope_set :: "state \<Rightarrow> nat \<Rightarrow> string \<Rightarrow> val \<Rightarrow> state" where
  "Scope_set s a name v =
     s\<lparr>frames := (frames s)[a := (frame_at s a)\<lparr>valuesMap := AList.update name v (valuesMap (frame_at s a))\<rparr>]\<rparr>"

function Scope_assign :: "state \<Rightarrow> nat \<Rightarrow> string \<Rightarrow> val \<Rightarrow> state option" where
  "Scope_assign s a name v =
     (if has s a name then Some (Scope_set s a name v)
      else (case parent (frame_at s a) of
              None \<Rightarrow> None
            | Some p \<Rightarrow> if p < a then Scope_assign s p name v else None))"
  by pat_completeness auto
termination
  by (relation "measure (\<lambda>(s, a, name, v). a)") auto

declare Scope_assign.simps [simp del]

text \<open>\<open>scope.values.delete(name)\<close>\<close>

definition Scope_delete :: "state \<Rightarrow> nat \<Rightarrow> string \<Rightarrow> state" where
  "Scope_delete s a name =
     s\<lparr>frames := (frames s)[a := (frame_at s a)\<lparr>valuesMap := AList.delete name (valuesMap (frame_at s a))\<rparr>]\<rparr>"

subsection \<open>Properties of values\<close>

definition object_at :: "state \<Rightarrow> nat \<Rightarrow> (string \<times> val) list" where
  "object_at s a = (if a < length (objects s) then objects s ! a else [])"

text \<open>\<open>obj[property]\<close>: an own property of an object of the language, anything else is
  JavaScript's business (prototypes, arrays, strings).\<close>

definition get_property :: "host \<Rightarrow> state \<Rightarrow> val \<Rightarrow> string \<Rightarrow> val" where
  "get_property h s v p =
     (case v of
        VObject a \<Rightarrow> (case map_of (object_at s a) p of Some x \<Rightarrow> x | None \<Rightarrow> js_property h v p)
      | _ \<Rightarrow> js_property h v p)"

text \<open>\<open>Object.entries({...p})\<close>\<close>

definition own_entries :: "host \<Rightarrow> state \<Rightarrow> val \<Rightarrow> (string \<times> val) list" where
  "own_entries h s v = (case v of VObject a \<Rightarrow> object_at s a | _ \<Rightarrow> js_entries h v)"

text \<open>\<open>node.params.forEach((p, i) => fnScope.set(p, args[i]))\<close>: an index past the end of
  \<open>args\<close> reads \<open>undefined\<close>.\<close>

definition arg_at :: "val list \<Rightarrow> nat \<Rightarrow> val" where
  "arg_at args i = (if i < length args then args ! i else VUndefined)"

definition bind_params :: "string list \<Rightarrow> val list \<Rightarrow> nat \<Rightarrow> state \<Rightarrow> state" where
  "bind_params params args a s =
     foldl (\<lambda>st i. Scope_set st a (params ! i) (arg_at args i)) s [0..<length params]"

text \<open>\<open>node.moduleName.split('.')[0]\<close>\<close>

definition first_segment :: "string \<Rightarrow> string" where
  "first_segment m = takeWhile (\<lambda>c. c \<noteq> CHR ''.'') m"

definition lift_host :: "error + 'a \<Rightarrow> 'a result" where
  "lift_host r = (case r of Inl e \<Rightarrow> Thrown e | Inr x \<Rightarrow> Ok x)"

subsection \<open>evaluate, executeStatement, executeBlock\<close>

text \<open>
  Scripts need not terminate, so the interpreter is indexed by a bound on the depth of
  nested calls of \<open>evaluate\<close> and \<open>executeStatement\<close> and on the number of loop
  iterations; it answers \<open>OutOfFuel\<close> when the bound is used up. Each source method is
  written once, with the methods it calls as parameters (\<open>ev\<close> for \<open>this.evaluate\<close>,
  \<open>ex\<close> for \<open>this.executeStatement\<close>); the recursion is closed below.

  The source is asynchronous. Where it awaits one computation at a time the model runs
  that computation to completion before going on; the yields to the event loop
  (\<open>setTimeout\<close>) have no effect on the state and are left out. The one place where the
  source starts several computations before awaiting any is \<open>Promise.all\<close> over the
  arguments of a call, see \<open>evaluate_all\<close>. Every node of a syntax tree is present: the
  test \<open>if (!node) return null\<close> of \<open>evaluate\<close> has no counterpart.
\<close>

type_synonym outcome = "(val \<times> state) result"
type_synonym evaluator = "expr \<Rightarrow> nat \<Rightarrow> state \<Rightarrow> outcome"
type_synonym executor = "stmt \<Rightarrow> nat \<Rightarrow> state \<Rightarrow> outcome"

text \<open>\<open>executeBlock(stmts, scope)\<close>, from the statement reached and the last result \<open>res\<close>.\<close>

primrec executeBlock_from :: "executor \<Rightarrow> stmt list \<Rightarrow> val \<Rightarrow> nat \<Rightarrow> state \<Rightarrow> outcome" where
  "executeBlock_from ex [] res sc s = Ok (res, s)"
| "executeBlock_from ex (node # rest) res sc s =
     (if stop s then Ok (VNull, s)
      else andThen (ex node sc s) (\<lambda>(r, s1).
             if has s1 sc ''__ret__'' then Ok (Scope_get s1 sc ''__ret__'', s1)
             else if has s1 sc ''__break__'' then Ok (r, s1)
             else if has s1 sc ''__continue__'' then Ok (r, s1)
             else executeBlock_from ex rest r sc (s1\<lparr>opCounter := opCounter s1 + 1\<rparr>)))"

definition executeBlock_with :: "executor \<Rightarrow> stmt list \<Rightarrow> nat \<Rightarrow> state \<Rightarrow> outcome" where
  "executeBlock_with ex stmts sc s = executeBlock_from ex stmts VNull sc s"

text \<open>
  \<open>Promise.all(node.arguments.map(a => this.evaluate(a, scope)))\<close>. The call of \<open>map\<close>
  starts the evaluation of every argument, in order, and each runs until its first
  \<open>await\<close>. A literal, an identifier and (having no case in \<open>evaluate\<close>) an array
  literal are finished at that point, with a value or an error, and have not changed
  the state; any other expression has only begun and has not changed the state yet. So
  all arguments read the state as it is before the call. When at most one argument is
  of the second kind, it then runs alone, and the state after the arguments is the one
  it leaves. An error of a finished argument rejects the promise before anything else
  happens, the first in the order of the arguments if there are several. With two or
  more arguments of the second kind their steps interleave, and the outcome is
  \<open>Concurrent\<close>.
\<close>

definition synchronous :: "expr \<Rightarrow> bool" where
  "synchronous e = (case e of Literal l \<Rightarrow> True | Identifier x \<Rightarrow> True | ArrayLiteral es \<Rightarrow> True | _ \<Rightarrow> False)"

text \<open>Every expression of the list evaluated in the same state; the state that results is
  the one left by the expression that is not finished at once, if there is one.\<close>

primrec evaluate_each ::
  "(expr \<Rightarrow> bool) \<Rightarrow> evaluator \<Rightarrow> expr list \<Rightarrow> nat \<Rightarrow> state \<Rightarrow> (val list \<times> state) result" where
  "evaluate_each sync ev [] sc s = Ok ([], s)"
| "evaluate_each sync ev (e # rest) sc s =
     andThen (ev e sc s) (\<lambda>(v, s1).
       andThen (evaluate_each sync ev rest sc s) (\<lambda>(vs, s2).
         Ok (v # vs, if sync e then s2 else s1)))"

definition evaluate_all ::
  "(expr \<Rightarrow> bool) \<Rightarrow> evaluator \<Rightarrow> expr list \<Rightarrow> nat \<Rightarrow> state \<Rightarrow> (val list \<times> state) result" where
  "evaluate_all sync ev es sc s =
     (if 1 < length (filter (\<lambda>e. \<not> sync e) es) then Concurrent
      else andThen (evaluate_each sync ev (filter sync es) sc s) (\<lambda>finished.
             evaluate_each sync ev es sc s))"

text \<open>\<open>fn.apply(context, args)\<close>, for the closure of a function declaration and for a
  function of the embedding page.\<close>

definition apply_function :: "executor \<Rightarrow> host \<Rightarrow> val \<Rightarrow> val \<Rightarrow> val list \<Rightarrow> state \<Rightarrow> outcome" where
  "apply_function ex h fn context args s =
     (case fn of
        VClosure params body scope \<Rightarrow>
          (let (fnScope, s1) = new_Scope (Some scope) s
           in executeBlock_with ex body fnScope (bind_params params args fnScope s1))
      | VHostFunction name \<Rightarrow> andThen (lift_host (call_host h name context args)) (\<lambda>v. Ok (v, s))
      | _ \<Rightarrow> Thrown NotAFunction)"

definition evaluate_step :: "evaluator \<Rightarrow> executor \<Rightarrow> host \<Rightarrow> expr \<Rightarrow> nat \<Rightarrow> state \<Rightarrow> outcome" where
  "evaluate_step ev ex h node sc s =
     (case node of
        Literal l \<Rightarrow> Ok (literal_value l, s)
      | Identifier x \<Rightarrow>
          (let v = Scope_get s sc x
           in if v = VUndefined then Thrown (UndefinedName x) else Ok (v, s))
      | ArrayLiteral es \<Rightarrow> Ok (VUndefined, s)
      | BinaryExpression left op right \<Rightarrow>
          andThen (ev left sc s) (\<lambda>(l, s1).
            if op = ''and'' then (if \<not> truthy l then Ok (l, s1) else ev right sc s1)
            else if op = ''or'' then (if truthy l then Ok (l, s1) else ev right sc s1)
            else andThen (ev right sc s1) (\<lambda>(r, s2). Ok (binary_switch h op l r, s2)))
      | CallExpression callee args \<Rightarrow>
          andThen
            (case callee of
               MemberExpression ob prop \<Rightarrow>
                 andThen (ev ob sc s) (\<lambda>(context, s1).
                   Ok ((if truthy context \<and> is_object context
                        then get_property h s1 context prop else VUndefined, context), s1))
             | _ \<Rightarrow> andThen (ev callee sc s) (\<lambda>(fn, s1). Ok ((fn, VNull), s1)))
            (\<lambda>((fn, context), s1).
               andThen (evaluate_all synchronous ev args sc s1) (\<lambda>(vs, s2).
                 if \<not> is_function fn then Thrown NotAFunction
                 else apply_function ex h fn context vs s2))
      | MemberExpression ob prop \<Rightarrow>
          andThen (ev ob sc s) (\<lambda>(obj, s1).
            if obj = VUndefined \<or> obj = VNull then Thrown (PropertyOfNullish prop obj)
            else Ok (get_property h s1 obj prop, s1))
      | EvalCall argument \<Rightarrow>
          andThen (ev argument sc s) (\<lambda>(cv, s1).
            let code = js_String h cv
            in andThen
                 (case map_of (evalCache s1) code of
                    Some ast \<Rightarrow> Ok (ast, s1)
                  | None \<Rightarrow>
                      andThen (lift_host (compile h code)) (\<lambda>ast.
                        Ok (ast, s1\<lparr>evalCache := AList.update code ast (evalCache s1)\<rparr>)))
                 (\<lambda>(ast, s2).
                    case ast of
                      [ExpressionStatement e] \<Rightarrow> ev e sc s2
                    | _ \<Rightarrow> executeBlock_with ex ast sc s2)))"

text \<open>The \<open>elif\<close> chain and the \<open>else\<close> branch of an if-statement.\<close>

primrec execute_elifs ::
  "evaluator \<Rightarrow> executor \<Rightarrow> (expr \<times> stmt list) list \<Rightarrow> stmt list option \<Rightarrow> nat \<Rightarrow> state \<Rightarrow> outcome" where
  "execute_elifs ev ex [] alternate sc s =
     (case alternate of
        Some body \<Rightarrow> executeBlock_with ex body sc s
      | None \<Rightarrow> Ok (VUndefined, s))"
| "execute_elifs ev ex (elif # rest) alternate sc s =
     andThen (ev (fst elif) sc s) (\<lambda>(t, s1).
       if truthy t then executeBlock_with ex (snd elif) sc s1
       else execute_elifs ev ex rest alternate sc s1)"

definition executeStatement_step ::
  "evaluator \<Rightarrow> executor \<Rightarrow> (expr \<Rightarrow> stmt list \<Rightarrow> nat \<Rightarrow> state \<Rightarrow> outcome) \<Rightarrow>
   (string \<Rightarrow> number \<Rightarrow> number \<Rightarrow> stmt list \<Rightarrow> nat \<Rightarrow> state \<Rightarrow> outcome) \<Rightarrow>
   host \<Rightarrow> stmt \<Rightarrow> nat \<Rightarrow> state \<Rightarrow> outcome" where
  "executeStatement_step ev ex while_loop for_loop h node sc s =
     (case node of
        ImportStatement moduleName \<Rightarrow>
          andThen (lift_host (resolve_module h moduleName)) (\<lambda>moduleVal.
            Ok (VUndefined, Scope_set s sc (first_segment moduleName) moduleVal))
      | FunctionDeclaration name params body \<Rightarrow>
          Ok (VUndefined, Scope_set s sc name (VClosure params body sc))
      | ObjectDefinition name parent_name properties \<Rightarrow>
          (let base = (case parent_name of
                         None \<Rightarrow> []
                       | Some pn \<Rightarrow>
                           if pn = [] then []
                           else (let p = Scope_get s sc pn
                                 in if truthy p \<and> is_object p then own_entries h s p else []));
               (objScope, s1) = new_Scope None s;
               s2 = foldl (\<lambda>st (k, v). Scope_set st objScope k v) s1 base
           in andThen (executeBlock_with ex properties objScope s2) (\<lambda>(r, s3).
                Ok (VUndefined,
                    Scope_set (s3\<lparr>objects := objects s3 @ [valuesMap (frame_at s3 objScope)]\<rparr>)
                      sc name (VObject (length (objects s3))))))
      | Assignment name op value \<Rightarrow>
          andThen (ev value sc s) (\<lambda>(v, s1).
            let v' = (if op \<noteq> ''=''
                      then (let current = (if truthy (Scope_get s1 sc name)
                                           then Scope_get s1 sc name else VNum (Fin 0))
                            in if op = ''+='' then js_binop h ''+'' current v
                               else if op = ''-='' then js_binop h ''-'' current v
                               else if op = ''*='' then js_binop h ''*'' current v
                               else if op = ''/='' then js_binop h ''/'' current v
                               else v)
                      else v)
            in Ok (VUndefined,
                   (case Scope_assign s1 sc name v' of
                      Some s2 \<Rightarrow> s2
                    | None \<Rightarrow> Scope_set s1 sc name v')))
      | IfStatement test consequent elifs alternate \<Rightarrow>
          andThen (ev test sc s) (\<lambda>(t, s1).
            if truthy t then executeBlock_with ex consequent sc s1
            else execute_elifs ev ex elifs alternate sc s1)
      | WhileStatement test body \<Rightarrow> while_loop test body sc s
      | ForStatement iterator start end body \<Rightarrow>
          andThen (ev start sc s) (\<lambda>(a, s1).
            andThen (ev end sc s1) (\<lambda>(b, s2).
              for_loop iterator (js_Number h a) (js_Number h b) body sc s2))
      | ReturnStatement value \<Rightarrow>
          andThen (ev value sc s) (\<lambda>(v, s1).
            Ok (VUndefined, Scope_set s1 sc ''__ret__'' v))
      | BreakStatement \<Rightarrow> Ok (VUndefined, Scope_set s sc ''__break__'' (VBool True))
      | ContinueStatement \<Rightarrow> Ok (VUndefined, Scope_set s sc ''__continue__'' (VBool True))
      | ExpressionStatement e \<Rightarrow> ev e sc s)"

text \<open>One turn of the loop of the while-statement; \<open>again\<close> is the rest of the loop.\<close>

definition while_step ::
  "evaluator \<Rightarrow> executor \<Rightarrow> (expr \<Rightarrow> stmt list \<Rightarrow> nat \<Rightarrow> state \<Rightarrow> outcome) \<Rightarrow>
   expr \<Rightarrow> stmt list \<Rightarrow> nat \<Rightarrow> state \<Rightarrow> outcome" where
  "while_step ev ex again test body sc s =
     (if stop s then Ok (VUndefined, s)
      else andThen (ev test sc s) (\<lambda>(t, s1).
             if \<not> truthy t then Ok (VUndefined, s1)
             else andThen (executeBlock_with ex body sc s1) (\<lambda>(r, s2).
                    if has s2 sc ''__ret__'' then Ok (VUndefined, s2)
                    else if has s2 sc ''__break__'' then Ok (VUndefined, Scope_delete s2 sc ''__break__'')
                    else again test body sc
                           (if has s2 sc ''__continue__'' then Scope_delete s2 sc ''__continue__'' else s2))))"

text \<open>One turn of the loop of the for-statement, the counter at \<open>i\<close>.\<close>

definition for_step ::
  "executor \<Rightarrow> (string \<Rightarrow> number \<Rightarrow> number \<Rightarrow> stmt list \<Rightarrow> nat \<Rightarrow> state \<Rightarrow> outcome) \<Rightarrow>
   string \<Rightarrow> number \<Rightarrow> number \<Rightarrow> stmt list \<Rightarrow> nat \<Rightarrow> state \<Rightarrow> outcome" where
  "for_step ex again iterator i e body sc s =
     (if \<not> num_le i e then Ok (VUndefined, s)
      else if stop s then Ok (VUndefined, s)
      else andThen (executeBlock_with ex body sc (Scope_set s sc iterator (VNum i))) (\<lambda>(r, s1).
             if has s1 sc ''__ret__'' then Ok (VUndefined, s1)
             else again iterator (num_succ i) e body sc s1))"

text \<open>Closing the recursion: what the interpreter is asked to do, and the bound.\<close>

datatype task =
  Evaluate expr nat
  | Execute stmt nat
  | WhileLoop expr "stmt list" nat
  | ForLoop string number number "stmt list" nat

primrec interp :: "nat \<Rightarrow> host \<Rightarrow> task \<Rightarrow> state \<Rightarrow> outcome" where
  "interp 0 h t s = OutOfFuel"
| "interp (Suc n) h t s =
     (case t of
        Evaluate node sc \<Rightarrow>
          evaluate_step (\<lambda>e c. interp n h (Evaluate e c)) (\<lambda>x c. interp n h (Execute x c)) h node sc s
      | Execute node sc \<Rightarrow>
          executeStatement_step (\<lambda>e c. interp n h (Evaluate e c)) (\<lambda>x c. interp n h (Execute x c))
            (\<lambda>t b c. interp n h (WhileLoop t b c)) (\<lambda>it i e b c. interp n h (ForLoop it i e b c)) h node sc s
      | WhileLoop test body sc \<Rightarrow>
          while_step (\<lambda>e c. interp n h (Evaluate e c)) (\<lambda>x c. interp n h (Execute x c))
            (\<lambda>t b c. interp n h (WhileLoop t b c)) test body sc s
      | ForLoop iterator i e body sc \<Rightarrow>
          for_step (\<lambda>x c. interp n h (Execute x c))
            (\<lambda>it i e b c. interp n h (ForLoop it i e b c)) iterator i e body sc s)"

definition evaluate :: "nat \<Rightarrow> host \<Rightarrow> expr \<Rightarrow> nat \<Rightarrow> state \<Rightarrow> outcome" where
  "evaluate n h node sc s = interp n h (Evaluate node sc) s"

definition executeStatement :: "nat \<Rightarrow> host \<Rightarrow> stmt \<Rightarrow> nat \<Rightarrow> state \<Rightarrow> outcome" where
  "executeStatement n h node sc s = interp n h (Execute node sc) s"

definition while_loop :: "nat \<Rightarrow> host \<Rightarrow> expr \<Rightarrow> stmt list \<Rightarrow> nat \<Rightarrow> state \<Rightarrow> outcome" where
  "while_loop n h test body sc s = interp n h (WhileLoop test body sc) s"

definition for_loop :: "nat \<Rightarrow> host \<Rightarrow> string \<Rightarrow> number \<Rightarrow> number \<Rightarrow> stmt list \<Rightarrow> nat \<Rightarrow> state \<Rightarrow> outcome" where
  "for_loop n h iterator i e body sc s = interp n h (ForLoop iterator i e body sc) s"

definition executeBlock :: "nat \<Rightarrow> host \<Rightarrow> stmt list \<Rightarrow> nat \<Rightarrow> state \<Rightarrow> outcome" where
  "executeBlock n h stmts sc s = executeBlock_with (executeStatement n h) stmts sc s"

text \<open>The constructor: a fresh global scope with the two built-ins, after the bindings
  the embedding page passes in.\<close>

definition Interpreter :: "(string \<times> val) list \<Rightarrow> state" where
  "Interpreter external =
     \<lparr>frames = [\<lparr>valuesMap = AList.update ''activateCanvas'' (VHostFunction ''activateCanvas'')
                               (AList.update ''print'' (VHostFunction ''print'')
                                  (foldl (\<lambda>m (k, v). AList.update k v m) [] external)),
                 parent = None\<rparr>],
      objects = [], evalCache = [], stop = False, opCounter = 0\<rparr>"

definition globals :: nat where
  "globals = 0"

text \<open>\<open>run(ast)\<close>\<close>

definition run :: "nat \<Rightarrow> host \<Rightarrow> stmt list \<Rightarrow> state \<Rightarrow> outcome" where
  "run n h body s = executeBlock n h body globals (s\<lparr>stop := False\<rparr>)"

lemma evaluate_Suc:
  "evaluate (Suc n) h node sc s = evaluate_step (evaluate n h) (executeStatement n h) h node sc s"
  unfolding evaluate_def executeStatement_def by simp

lemma executeStatement_Suc:
  "executeStatement (Suc n) h node sc s =
     executeStatement_step (evaluate n h) (executeStatement n h) (while_loop n h) (for_loop n h) h node sc s"
  unfolding evaluate_def executeStatement_def while_loop_def for_loop_def by simp

lemma while_loop_Suc:
  "while_loop (Suc n) h test body sc s =
     while_step (evaluate n h) (executeStatement n h) (while_loop n h) test body sc s"
  unfolding evaluate_def executeStatement_def while_loop_def by simp

lemma for_loop_Suc:
  "for_loop (Suc n) h iterator i e body sc s =
     for_step (executeStatement n h) (for_loop n h) iterator i e body sc s"
  unfolding executeStatement_def for_loop_def by simp

section \<open>The older interpreter (src/unnamed/part_001, class Interpreter)\<close>

text \<open>
  The older interpreter reads the same syntax trees; its parser, the second one of
  src/unnamed/part_000, builds no \<open>elif\<close> branch and no for-, break- or
  continue-statement. It has no class \<open>Scope\<close>: a scope is a JavaScript \<open>Map\<close>, the
  global one (\<open>this.globals\<close>) or a copy made for a call or for an object definition.
  Here a \<open>Map\<close> is a frame without parent in the store of frames, the global one at
  address 0, and an object is kept in the store of objects. The fields \<open>evalCache\<close>
  and \<open>opCounter\<close> do not exist in this interpreter; the model leaves them as they are.
  The parser that its \<open>eval\<close> imports is not modelled: as for the current interpreter,
  compiling a text is the parameter \<open>compile\<close>.
\<close>

text \<open>\<open>scope.get(name)\<close> on a \<open>Map\<close>\<close>

definition Map_get :: "state \<Rightarrow> nat \<Rightarrow> string \<Rightarrow> val" where
  "Map_get s a name = (case map_of (valuesMap (frame_at s a)) name of Some v \<Rightarrow> v | None \<Rightarrow> VUndefined)"

text \<open>\<open>new Map(entries)\<close>: the entries are set one after the other.\<close>

definition new_Map :: "(string \<times> val) list \<Rightarrow> state \<Rightarrow> nat \<times> state" where
  "new_Map entries s =
     (length (frames s),
      s\<lparr>frames := frames s @
           [\<lparr>valuesMap = foldl (\<lambda>m (k, v). AList.update k v m) [] entries, parent = None\<rparr>]\<rparr>)"

text \<open>\<open>executeBlock(statements, scope)\<close>, from the statement reached and the last result.\<close>

primrec executeBlock_sq_from :: "executor \<Rightarrow> stmt list \<Rightarrow> val \<Rightarrow> nat \<Rightarrow> state \<Rightarrow> outcome" where
  "executeBlock_sq_from ex [] lastResult sc s = Ok (lastResult, s)"
| "executeBlock_sq_from ex (node # rest) lastResult sc s =
     (if stop s then Ok (VNull, s)
      else andThen (ex node sc s) (\<lambda>(r, s1).
             if has s1 sc ''__return_value__'' then Ok (Map_get s1 sc ''__return_value__'', s1)
             else executeBlock_sq_from ex rest r sc s1))"

definition executeBlock_sq_with :: "executor \<Rightarrow> stmt list \<Rightarrow> nat \<Rightarrow> state \<Rightarrow> outcome" where
  "executeBlock_sq_with ex stmts sc s = executeBlock_sq_from ex stmts VNull sc s"

text \<open>
  The call \<open>callee(...args)\<close>. The arrow function of a function declaration copies the
  \<open>Map\<close> of the declaration as it is at the time of the call, sets the parameters in the
  copy, runs the body in it and deletes the return sentinel from it.
\<close>

definition apply_function_sq :: "executor \<Rightarrow> host \<Rightarrow> val \<Rightarrow> val list \<Rightarrow> state \<Rightarrow> outcome" where
  "apply_function_sq ex h fn args s =
     (case fn of
        VClosure params body scope \<Rightarrow>
          (let (localScope, s1) = new_Map (valuesMap (frame_at s scope)) s
           in andThen (executeBlock_sq_with ex body localScope (bind_params params args localScope s1))
                (\<lambda>(res, s2). Ok (res, Scope_delete s2 localScope ''__return_value__'')))
      | VHostFunction name \<Rightarrow> andThen (lift_host (call_host h name VUndefined args)) (\<lambda>v. Ok (v, s))
      | _ \<Rightarrow> Ok (VNull, s))"

text \<open>
  \<open>Promise.all\<close> over the elements of an array literal and over the arguments of a
  call, as in \<open>evaluate_all\<close>; here a literal and an identifier are the expressions
  that are finished without an \<open>await\<close>.
\<close>

definition synchronous_sq :: "expr \<Rightarrow> bool" where
  "synchronous_sq e = (case e of Literal l \<Rightarrow> True | Identifier x \<Rightarrow> True | _ \<Rightarrow> False)"

definition evaluateExpression_step :: "evaluator \<Rightarrow> executor \<Rightarrow> host \<Rightarrow> expr \<Rightarrow> nat \<Rightarrow> state \<Rightarrow> outcome" where
  "evaluateExpression_step ev ex h node sc s =
     (case node of
        Literal l \<Rightarrow> Ok (literal_value l, s)
      | ArrayLiteral es \<Rightarrow>
          andThen (evaluate_all synchronous_sq ev es sc s) (\<lambda>(vs, s1). Ok (VArray vs, s1))
      | Identifier x \<Rightarrow>
          if \<not> has s sc x then Thrown (UndefinedVariable x) else Ok (Map_get s sc x, s)
      | BinaryExpression left op right \<Rightarrow>
          andThen (ev left sc s) (\<lambda>(l, s1).
            andThen (ev right sc s1) (\<lambda>(r, s2). Ok (binary_switch h op l r, s2)))
      | CallExpression callee args \<Rightarrow>
          andThen (ev callee sc s) (\<lambda>(fn, s1).
            andThen (evaluate_all synchronous_sq ev args sc s1) (\<lambda>(vs, s2).
              if is_function fn then apply_function_sq ex h fn vs s2 else Ok (VNull, s2)))
      | MemberExpression ob prop \<Rightarrow>
          andThen (ev ob sc s) (\<lambda>(obj, s1).
            Ok (if truthy obj \<and> is_object obj then get_property h s1 obj prop else VNull, s1))
      | EvalCall argument \<Rightarrow>
          andThen (ev argument sc s) (\<lambda>(cv, s1).
            andThen (lift_host (compile h (js_String h cv))) (\<lambda>ast.
              case ast of
                ExpressionStatement e # rest \<Rightarrow> ev e sc s1
              | _ \<Rightarrow> executeBlock_sq_with ex ast sc s1)))"

text \<open>
  \<open>executeStatement\<close>. An assignment writes into the current \<open>Map\<close> if that has the
  name and into \<open>this.globals\<close> otherwise; an operator outside the table \<open>ops\<close> makes
  the call \<open>ops[node.operator](val)\<close> a \<open>TypeError\<close>. A node type without a case does
  nothing.
\<close>

definition executeStatement_sq_step ::
  "evaluator \<Rightarrow> executor \<Rightarrow> (expr \<Rightarrow> stmt list \<Rightarrow> nat \<Rightarrow> state \<Rightarrow> outcome) \<Rightarrow>
   host \<Rightarrow> stmt \<Rightarrow> nat \<Rightarrow> state \<Rightarrow> outcome" where
  "executeStatement_sq_step ev ex loop h node sc s =
     (if stop s then Ok (VNull, s)
      else case node of
        ImportStatement moduleName \<Rightarrow>
          andThen (lift_host (resolve_module h moduleName)) (\<lambda>moduleVal.
            Ok (VUndefined, Scope_set s sc (first_segment moduleName) moduleVal))
      | FunctionDeclaration name params body \<Rightarrow>
          Ok (VUndefined, Scope_set s sc name (VClosure params body sc))
      | ObjectDefinition name parent_name properties \<Rightarrow>
          (let p = (case parent_name of
                      None \<Rightarrow> VUndefined
                    | Some pn \<Rightarrow> if pn = [] then VUndefined else Map_get s sc pn);
               obj = (if is_object p \<and> p \<noteq> VNull then own_entries h s p else []);
               (objScope, s1) = new_Map obj s
           in andThen (executeBlock_sq_with ex properties objScope s1) (\<lambda>(r, s2).
                Ok (VUndefined,
                    Scope_set (s2\<lparr>objects := objects s2 @ [valuesMap (frame_at s2 objScope)]\<rparr>)
                      sc name (VObject (length (objects s2))))))
      | Assignment name op value \<Rightarrow>
          andThen (ev value sc s) (\<lambda>(v, s1).
            let target = (if has s1 sc name then sc else globals);
                cur = (if truthy (Map_get s1 target name) then Map_get s1 target name else VNum (Fin 0))
            in if op = ''='' then Ok (VUndefined, Scope_set s1 target name v)
               else if op \<in> set [''+='', ''-='', ''*='', ''/='']
               then Ok (VUndefined, Scope_set s1 target name (js_binop h (butlast op) cur v))
               else Thrown TypeError)
      | IfStatement test consequent elifs alternate \<Rightarrow>
          andThen (ev test sc s) (\<lambda>(t, s1).
            if truthy t then executeBlock_sq_with ex consequent sc s1
            else (case alternate of
                    Some body \<Rightarrow> executeBlock_sq_with ex body sc s1
                  | None \<Rightarrow> Ok (VUndefined, s1)))
      | WhileStatement test body \<Rightarrow> loop test body sc s
      | ReturnStatement value \<Rightarrow>
          andThen (ev value sc s) (\<lambda>(v, s1).
            Ok (v, Scope_set s1 sc ''__return_value__'' v))
      | ExpressionStatement e \<Rightarrow> ev e sc s
      | _ \<Rightarrow> Ok (VUndefined, s))"

text \<open>One turn of the loop of the while-statement; \<open>again\<close> is the rest of the loop.\<close>

definition while_sq_step ::
  "evaluator \<Rightarrow> executor \<Rightarrow> (expr \<Rightarrow> stmt list \<Rightarrow> nat \<Rightarrow> state \<Rightarrow> outcome) \<Rightarrow>
   expr \<Rightarrow> stmt list \<Rightarrow> nat \<Rightarrow> state \<Rightarrow> outcome" where
  "while_sq_step ev ex again test body sc s =
     (if stop s then Ok (VUndefined, s)
      else andThen (ev test sc s) (\<lambda>(t, s1).
             if \<not> truthy t then Ok (VUndefined, s1)
             else andThen (executeBlock_sq_with ex body sc s1) (\<lambda>(res, s2).
                    if has s2 sc ''__return_value__'' then Ok (res, s2)
                    else again test body sc s2)))"

datatype task_sq =
  Evaluate_sq expr nat
  | Execute_sq stmt nat
  | WhileLoop_sq expr "stmt list" nat

primrec interp_sq :: "nat \<Rightarrow> host \<Rightarrow> task_sq \<Rightarrow> state \<Rightarrow> outcome" where
  "interp_sq 0 h t s = OutOfFuel"
| "interp_sq (Suc n) h t s =
     (case t of
        Evaluate_sq node sc \<Rightarrow>
          evaluateExpression_step (\<lambda>e c. interp_sq n h (Evaluate_sq e c))
            (\<lambda>x c. interp_sq n h (Execute_sq x c)) h node sc s
      | Execute_sq node sc \<Rightarrow>
          executeStatement_sq_step (\<lambda>e c. interp_sq n h (Evaluate_sq e c))
            (\<lambda>x c. interp_sq n h (Execute_sq x c)) (\<lambda>t b c. interp_sq n h (WhileLoop_sq t b c)) h node sc s
      | WhileLoop_sq test body sc \<Rightarrow>
          while_sq_step (\<lambda>e c. interp_sq n h (Evaluate_sq e c))
            (\<lambda>x c. interp_sq n h (Execute_sq x c)) (\<lambda>t b c. interp_sq n h (WhileLoop_sq t b c)) test body sc s)"

definition evaluateExpression :: "nat \<Rightarrow> host \<Rightarrow> expr \<Rightarrow> nat \<Rightarrow> state \<Rightarrow> outcome" where
  "evaluateExpression n h node sc s = interp_sq n h (Evaluate_sq node sc) s"

definition executeStatement_sq :: "nat \<Rightarrow> host \<Rightarrow> stmt \<Rightarrow> nat \<Rightarrow> state \<Rightarrow> outcome" where
  "executeStatement_sq n h node sc s = interp_sq n h (Execute_sq node sc) s"

definition executeBlock_sq :: "nat \<Rightarrow> host \<Rightarrow> stmt list \<Rightarrow> nat \<Rightarrow> state \<Rightarrow> outcome" where
  "executeBlock_sq n h stmts sc s = executeBlock_sq_with (executeStatement_sq n h) stmts sc s"

text \<open>The constructor: the \<open>Map\<close> passed in, or a new one, is the global scope; \<open>print\<close>
  and \<open>input\<close> are set in it unless it has them.\<close>

definition Interpreter_sq :: "(string \<times> val) list \<Rightarrow> state" where
  "Interpreter_sq externalScope =
     (let m1 = (if map_of externalScope ''print'' = None
                then AList.update ''print'' (VHostFunction ''print'') externalScope else externalScope);
          m2 = (if map_of m1 ''input'' = None
                then AList.update ''input'' (VHostFunction ''input'') m1 else m1)
      in \<lparr>frames = [\<lparr>valuesMap = m2, parent = None\<rparr>],
          objects = [], evalCache = [], stop = False, opCounter = 0\<rparr>)"

text \<open>\<open>run(ast)\<close>\<close>

definition run_sq :: "nat \<Rightarrow> host \<Rightarrow> stmt list \<Rightarrow> state \<Rightarrow> outcome" where
  "run_sq n h body s = executeBlock_sq n h body globals (s\<lparr>stop := False\<rparr>)"

lemma evaluateExpression_Suc:
  "evaluateExpression (Suc n) h node sc s =
     evaluateExpression_step (evaluateExpression n h) (executeStatement_sq n h) h node sc s"
  unfolding evaluateExpression_def executeStatement_sq_def by simp

lemma executeStatement_sq_Suc:
  "executeStatement_sq (Suc n) h node sc s =
     executeStatement_sq_step (evaluateExpression n h) (executeStatement_sq n h)
       (\<lambda>t b c. interp_sq n h (WhileLoop_sq t b c)) h node sc s"
  unfolding evaluateExpression_def executeStatement_sq_def by simp

subsection \<open>The scope chain in the words of the specification\<close>

text \<open>
  The frames from a frame outward to the root, and the first of them that binds a name.
  These two follow the wording of the specification; \<open>Scope_get\<close> and \<open>Scope_assign\<close>
  above follow the source and are compared with them below.
\<close>

function scope_chain :: "state \<Rightarrow> nat \<Rightarrow> nat list" where
  "scope_chain s a =
     a # (case parent (frame_at s a) of
            None \<Rightarrow> []
          | Some p \<Rightarrow> if p < a then scope_chain s p else [])"
  by pat_completeness auto
termination
  by (relation "measure (\<lambda>(s, a). a)") auto

declare scope_chain.simps [simp del]

definition find_binding :: "state \<Rightarrow> nat \<Rightarrow> string \<Rightarrow> nat option" where
  "find_binding s a name = find (\<lambda>f. has s f name) (scope_chain s a)"

subsection \<open>An embedding page that supplies nothing, and some scripts\<close>

definition bare_host :: host where
  "bare_host =
     \<lparr>compile = (\<lambda>code. Inl (HostFailure ''no parser'')),
      resolve_module = (\<lambda>m. Inl (HostFailure ''no module'')),
      call_host = (\<lambda>name context args. Inr VUndefined),
      js_operator = (\<lambda>op l r. VNum NaN),
      js_to_string = (\<lambda>v. []),
      js_to_number = (\<lambda>v. NaN),
      js_property = (\<lambda>v p. VUndefined),
      js_entries = (\<lambda>v. [])\<rparr>"

definition num :: "rat \<Rightarrow> expr" where
  "num r = Literal (LNumber (Fin r))"

text \<open>
  \<^verbatim>\<open>count = 0\<close>, then \<^verbatim>\<open>for i = 1 to 3\<close> with the body \<^verbatim>\<open>count += 1\<close>, \<^verbatim>\<open>break\<close>,
  then \<^verbatim>\<open>after = 1\<close>.
\<close>

definition for_break_program :: "stmt list" where
  "for_break_program =
     [Assignment ''count'' ''='' (num 0),
      ForStatement ''i'' (num 1) (num 3) [Assignment ''count'' ''+='' (num 1), BreakStatement],
      Assignment ''after'' ''='' (num 1)]"

text \<open>The same with \<^verbatim>\<open>while True\<close> in place of the for-statement.\<close>

definition while_break_program :: "stmt list" where
  "while_break_program =
     [Assignment ''count'' ''='' (num 0),
      WhileStatement (Literal (LBoolean True)) [Assignment ''count'' ''+='' (num 1), BreakStatement],
      Assignment ''after'' ''='' (num 1)]"

text \<open>
  \<^verbatim>\<open>count = 0\<close>, then \<^verbatim>\<open>while count < 3\<close> with the body \<^verbatim>\<open>count += 1\<close>,
  \<^verbatim>\<open>continue\<close>, \<^verbatim>\<open>skipped = 1\<close>.
\<close>

definition while_continue_program :: "stmt list" where
  "while_continue_program =
     [Assignment ''count'' ''='' (num 0),
      WhileStatement (BinaryExpression (Identifier ''count'') ''<'' (num 3))
        [Assignment ''count'' ''+='' (num 1), ContinueStatement, Assignment ''skipped'' ''='' (num 1)]]"

text \<open>\<^verbatim>\<open>function f(a, b)\<close> with the body \<^verbatim>\<open>return = b\<close>, then the call \<^verbatim>\<open>f(1)\<close>.\<close>

definition missing_argument_program :: "stmt list" where
  "missing_argument_program =
     [FunctionDeclaration ''f'' [''a'', ''b''] [ReturnStatement (Identifier ''b'')],
      ExpressionStatement (CallExpression (Identifier ''f'') [num 1])]"

text \<open>\<^verbatim>\<open>function f(a)\<close> with the body \<^verbatim>\<open>return = a\<close>, then the call \<^verbatim>\<open>f(1, 2)\<close>.\<close>

definition extra_argument_program :: "stmt list" where
  "extra_argument_program =
     [FunctionDeclaration ''f'' [''a''] [ReturnStatement (Identifier ''a'')],
      ExpressionStatement (CallExpression (Identifier ''f'') [num 1, num 2])]"

text \<open>The first script with the body \<^verbatim>\<open>return = a\<close>, which does not read \<open>b\<close>.\<close>

definition unread_argument_program :: "stmt list" where
  "unread_argument_program =
     [FunctionDeclaration ''f'' [''a'', ''b''] [ReturnStatement (Identifier ''a'')],
      ExpressionStatement (CallExpression (Identifier ''f'') [num 1])]"

text \<open>The call \<^verbatim>\<open>f()\<close>.\<close>

definition call_f :: expr where
  "call_f = CallExpression (Identifier ''f'') []"

text \<open>
  \<^verbatim>\<open>x = 1\<close>; \<^verbatim>\<open>function f()\<close> with the body \<^verbatim>\<open>x = 2\<close>, \<^verbatim>\<open>return = 0\<close>;
  \<^verbatim>\<open>function g(a, b)\<close> with the body \<^verbatim>\<open>return = b\<close>; then \<^verbatim>\<open>r = g(f(), x)\<close>. And the
  same with \<^verbatim>\<open>r = g(f(), f())\<close> as the last statement.
\<close>

definition argument_order_program :: "expr \<Rightarrow> stmt list" where
  "argument_order_program second =
     [Assignment ''x'' ''='' (num 1),
      FunctionDeclaration ''f'' [] [Assignment ''x'' ''='' (num 2), ReturnStatement (num 0)],
      FunctionDeclaration ''g'' [''a'', ''b''] [ReturnStatement (Identifier ''b'')],
      Assignment ''r'' ''='' (CallExpression (Identifier ''g'') [call_f, second])]"

text \<open>\<^verbatim>\<open>return = 1\<close> and \<^verbatim>\<open>return = 7\<close>, each a whole top-level program.\<close>

definition return_1_program :: "stmt list" where
  "return_1_program = [ReturnStatement (num 1)]"

definition return_7_program :: "stmt list" where
  "return_7_program = [ReturnStatement (num 7)]"

text \<open>A global frame that binds \<open>x\<close>, and a frame of a call below it.\<close>

definition two_frames :: state where
  "two_frames =
     \<lparr>frames = [\<lparr>valuesMap = [(''x'', VNum (Fin 1))], parent = None\<rparr>,
                \<lparr>valuesMap = [], parent = Some 0\<rparr>],
      objects = [], evalCache = [], stop = False, opCounter = 0\<rparr>"


text \<open>A page whose parser knows the one text \<^verbatim>\<open>1 + 2\<close>.\<close>

definition adder_host :: host where
  "adder_host =
     bare_host\<lparr>compile := (\<lambda>code. if code = ''1 + 2''
                                  then Inr [ExpressionStatement (BinaryExpression (num 1) ''+'' (num 2))]
                                  else Inl (HostFailure ''parse error''))\<rparr>"

text \<open>The expression \<^verbatim>\<open>eval("1 + 2")\<close>.\<close>

definition eval_1_plus_2 :: expr where
  "eval_1_plus_2 = EvalCall (Literal (LString ''1 + 2''))"

text \<open>An interpreter in which \<open>Base\<close> is an object with the property \<open>x = 1\<close> and the
  global \<open>y\<close> is 9; and the same after \<open>Child\<close> has been defined from \<open>Base\<close> with an
  empty body.\<close>

definition base_state :: state where
  "base_state =
     \<lparr>frames = [\<lparr>valuesMap = [(''Base'', VObject 0), (''y'', VNum (Fin 9))], parent = None\<rparr>],
      objects = [[(''x'', VNum (Fin 1))]], evalCache = [], stop = False, opCounter = 0\<rparr>"

definition child_state :: state where
  "child_state =
     \<lparr>frames = [\<lparr>valuesMap = [(''Base'', VObject 0), (''y'', VNum (Fin 9)), (''Child'', VObject 1)],
                  parent = None\<rparr>,
                \<lparr>valuesMap = [(''x'', VNum (Fin 1))], parent = None\<rparr>],
      objects = [[(''x'', VNum (Fin 1))], [(''x'', VNum (Fin 1))]],
      evalCache = [], stop = False, opCounter = 0\<rparr>"

text \<open>
  \<^verbatim>\<open>x = 1\<close>, then \<^verbatim>\<open>function f()\<close> with the body \<^verbatim>\<open>x = 2\<close>, \<^verbatim>\<open>y = 3\<close>, then the
  call \<^verbatim>\<open>f()\<close>.
\<close>

definition shadowing_program :: "stmt list" where
  "shadowing_program =
     [Assignment ''x'' ''='' (num 1),
      FunctionDeclaration ''f'' [] [Assignment ''x'' ''='' (num 2), Assignment ''y'' ''='' (num 3)],
      ExpressionStatement (CallExpression (Identifier ''f'') [])]"

text \<open>The definition of an object \<open>Foo\<close> without parent, with the body \<^verbatim>\<open>x = 1\<close>.\<close>

definition object_program :: "stmt list" where
  "object_program = [ObjectDefinition ''Foo'' None [Assignment ''x'' ''='' (num 1)]]"










subsection \<open>Running a whole program, in the words of the specification\<close>

text \<open>
  Every statement of the program is run, in order, and the result is that of the last
  one (\<open>res\<close> if there is none); the counter of operations goes up by one after each
  statement, as in the source. \<open>executeBlock_from\<close> above follows the source and is
  compared with this below.
\<close>

primrec run_in_order :: "executor \<Rightarrow> stmt list \<Rightarrow> val \<Rightarrow> nat \<Rightarrow> state \<Rightarrow> outcome" where
  "run_in_order ex [] res sc s = Ok (res, s)"
| "run_in_order ex (node # rest) res sc s =
     andThen (ex node sc s) (\<lambda>(r, s1). run_in_order ex rest r sc (s1\<lparr>opCounter := opCounter s1 + 1\<rparr>))"


subsection \<open>Bindings that survive a computation\<close>

text \<open>A computation preserves the name \<open>R\<close> in the frame \<open>a\<close> when, whenever it returns,
  the frame still binds the name if it did before.\<close>

definition preserves :: "string \<Rightarrow> nat \<Rightarrow> (state \<Rightarrow> ('r \<times> state) result) \<Rightarrow> bool" where
  "preserves R a g = (\<forall>s r s'. g s = Ok (r, s') \<longrightarrow> has s a R \<longrightarrow> has s' a R)"

text \<open>A fresh interpreter after the top-level program \<^verbatim>\<open>return = 1\<close>.\<close>

definition returned_state :: state where
  "returned_state =
     \<lparr>frames = [\<lparr>valuesMap = [(''print'', VHostFunction ''print''),
                              (''activateCanvas'', VHostFunction ''activateCanvas''),
                              (''__ret__'', VNum (Fin 1))],
                  parent = None\<rparr>],
      objects = [], evalCache = [], stop = False, opCounter = 0\<rparr>"

text \<open>\<^verbatim>\<open>count = 0\<close>, then \<^verbatim>\<open>after = 1\<close>.\<close>

definition two_assignments_program :: "stmt list" where
  "two_assignments_program = [Assignment ''count'' ''='' (num 0), Assignment ''after'' ''='' (num 1)]"

section \<open>Properties of the lexers\<close>

lemma classify_ttype: "ttype (classify v lno) \<noteq> INDENT \<and> ttype (classify v lno) \<noteq> DEDENT"
  by (simp add: classify_def)

lemma tokenizeLine_structural:
  "count_type INDENT (tokenizeLine s lno) = 0 \<and> count_type DEDENT (tokenizeLine s lno) = 0"
proof (induction s lno rule: tokenizeLine.induct)
  case (1 lno)
  show ?case by (simp add: count_type_def)
next
  case (2 c cs lno)
  show ?case
  proof (cases "token_regex_at (c # cs)")
    case None
    with 2 show ?thesis by simp
  next
    case (Some n)
    show ?thesis
    proof (cases "startsWith (take n (c # cs)) ''--''")
      case True
      with Some show ?thesis by (simp add: count_type_def)
    next
      case False
      with Some 2(2)[OF Some False] classify_ttype[of "take n (c # cs)" lno]
      show ?thesis by (simp add: count_type_def)
    qed
  qed
qed

lemma count_type_append [simp]:
  "count_type ty (xs @ ys) = count_type ty xs + count_type ty ys"
  by (simp add: count_type_def)

lemma count_type_single [simp]:
  "count_type ty [Token ty' v l] = (if ty' = ty then 1 else 0)"
  by (simp add: count_type_def)

lemma dedent_loop_inv: "stack_inv lx \<Longrightarrow> stack_inv (dedent_loop indent lno lx)"
proof (induction indent lno lx rule: dedent_loop.induct)
  case (1 indent lno lx)
  show ?case
  proof (cases "indentStack lx \<noteq> [] \<and> indent < last (indentStack lx)")
    case False
    with 1(2) show ?thesis by (subst dedent_loop.simps) auto
  next
    case True
    from True 1(2) have len: "2 \<le> length (indentStack lx)"
      by (cases "indentStack lx" rule: rev_cases; cases "butlast (indentStack lx)")
         (auto simp: stack_inv_def)
    have "stack_inv (lx\<lparr>tokens := tokens lx @ [Token DEDENT NoValue (Some lno)],
                 indentStack := butlast (indentStack lx)\<rparr>)"
      using 1(2) len
      by (cases "indentStack lx" rule: rev_cases; cases "butlast (indentStack lx)")
         (auto simp: stack_inv_def)
    from 1(1)[OF True this] True show ?thesis
      by (subst dedent_loop.simps) simp
  qed
qed

lemma handle_line_inv: "stack_inv lx \<Longrightarrow> stack_inv (handle_line l lno lx)"
proof -
  assume inv: "stack_inv lx"
  have push: "stack_inv (lx\<lparr>tokens := tokens lx @ [Token INDENT v (Some lno)],
                              indentStack := indentStack lx @ [k]\<rparr>)" for v k
    using inv by (auto simp: stack_inv_def)
  have toks: "stack_inv lx1 \<Longrightarrow>
     stack_inv (lx1\<lparr>tokens := tokens lx1 @ tokenizeLine s lno @ [Token NEWLINE NoValue (Some lno)]\<rparr>)" for lx1 s
    using tokenizeLine_structural[of s lno] by (auto simp: stack_inv_def)
  show ?thesis
    unfolding handle_line_def Let_def
    using inv push toks dedent_loop_inv by auto
qed

lemma tokenize_lines_inv: "stack_inv lx \<Longrightarrow> stack_inv (tokenize_lines ls i lx)"
  by (induction ls i lx rule: tokenize_lines.induct) (auto intro: handle_line_inv)

lemma final_dedents_inv:
  "stack_inv lx \<Longrightarrow> stack_inv (final_dedents lx) \<and> length (indentStack (final_dedents lx)) \<le> 1"
proof (induction lx rule: final_dedents.induct)
  case (1 lx)
  show ?case
  proof (cases "length (indentStack lx) > 1")
    case False
    with 1(2) show ?thesis by (subst (1 2) final_dedents.simps) simp
  next
    case True
    have "stack_inv (lx\<lparr>tokens := tokens lx @ [Token DEDENT NoValue None],
                             indentStack := butlast (indentStack lx)\<rparr>)"
      using 1(2) True
      by (cases "indentStack lx" rule: rev_cases; cases "butlast (indentStack lx)")
         (auto simp: stack_inv_def)
    from 1(1)[OF True this] True show ?thesis
      by (subst (1 2) final_dedents.simps) simp
  qed
qed

lemma Lexer_inv: "stack_inv Lexer"
  by (simp add: stack_inv_def Lexer_def count_type_def)

text \<open>
  The stack-based lexer of the current dialect is balanced on every input: as many
  INDENT as DEDENT tokens, and the stack back at its base level.
\<close>

lemma tokenize_balanced:
  "count_type INDENT (tokenize input) = count_type DEDENT (tokenize input) \<and>
   indentStack (tokenize_run input) = [0]"
proof -
  let ?lx = "tokenize_run input"
  have inv: "stack_inv ?lx" and len: "length (indentStack ?lx) \<le> 1"
    unfolding tokenize_run_def
    using final_dedents_inv[OF tokenize_lines_inv[OF Lexer_inv]] by auto
  from inv len have st: "indentStack ?lx = [0]"
    by (cases "indentStack ?lx") (auto simp: stack_inv_def)
  with inv show ?thesis by (simp add: stack_inv_def tokenize_def)
qed

lemma quote_regex: "CHR 0x22 \<notin> set rest \<Longrightarrow> token_regex_at (CHR 0x22 # rest) = None"
  by (cases rest)
     (auto simp: token_regex_at_def orelse_def match_digits_def is_digit_def is_ident_start_def is_symbol_def)

lemma dropWhile_hd_mem: "dropWhile P r \<noteq> [] \<Longrightarrow> hd (dropWhile P r) \<in> set r"
  by (metis hd_in_set set_dropWhileD)

lemma hash_classes:
  "\<not> is_ident_start (CHR ''#'')" "\<not> is_digit (CHR ''#'')" "\<not> is_symbol (CHR ''#'')"
  by (simp_all add: is_ident_start_def is_digit_def is_symbol_def)

lemma hash_obj_identifier:
  "CHR ''#'' \<notin> set rest \<Longrightarrow> match_obj_identifier (CHR ''#'' # rest) = None"
proof (cases rest)
  case Nil
  then show ?thesis by simp
next
  case (Cons d r)
  assume "CHR ''#'' \<notin> set rest"
  with Cons have "CHR ''#'' \<notin> set r" by simp
  with dropWhile_hd_mem[of is_ident_char r]
  have "dropWhile is_ident_char r \<noteq> [] \<Longrightarrow> hd (dropWhile is_ident_char r) \<noteq> CHR ''#''"
    by metis
  with Cons show ?thesis by (auto simp: Let_def)
qed

lemma hash_regex: "CHR ''#'' \<notin> set rest \<Longrightarrow> token_regex_at (CHR ''#'' # rest) = None"
  using hash_obj_identifier[of rest]
  by (cases rest)
     (simp_all add: token_regex_at_def orelse_def match_digits_def hash_classes)

text \<open>
  Claim C3, as the code has it. \<open>tokenizeLine\<close> has no error path. A double quote with no
  closing quote after it on the line, and a hash sign with no closing hash sign, match
  no alternative of the regular expression, so the search passes over that one
  character and the rest of the line is tokenized as if the delimiter were absent.
\<close>

theorem unterminated_delimiter_skipped:
  "(CHR 0x22 \<notin> set rest \<longrightarrow> tokenizeLine (CHR 0x22 # rest) lno = tokenizeLine rest lno) \<and>
   (CHR ''#'' \<notin> set rest \<longrightarrow> tokenizeLine (CHR ''#'' # rest) lno = tokenizeLine rest lno)"
  by (simp add: quote_regex hash_regex)

theorem unterminated_delimiter_skipped_witness:
  "CHR 0x22 \<notin> set ''abc'' \<and> tokenizeLine (CHR 0x22 # ''abc'') 1 = tokenizeLine ''abc'' 1 \<and>
   CHR ''#'' \<notin> set ''abc'' \<and> tokenizeLine (CHR ''#'' # ''abc'') 1 = tokenizeLine ''abc'' 1"
  using unterminated_delimiter_skipped[of "''abc''" 1] by simp

text \<open>
  Against claim C3 as stated: the line \<^verbatim>\<open>x = "abc\<close> (an unterminated string) is
  tokenized without any failure, and its tokens are those of \<^verbatim>\<open>x = abc\<close>: the quote
  is dropped silently.
\<close>

theorem unterminated_string_tokenized:
  "tokenize (''x = '' @ [CHR 0x22] @ ''abc'') =
     [Token IDENTIFIER (StrValue ''x'') (Some 1), Token SYMBOL (StrValue ''='') (Some 1),
      Token IDENTIFIER (StrValue ''abc'') (Some 1), Token NEWLINE NoValue (Some 1)] \<and>
   tokenize (''x = '' @ [CHR 0x22] @ ''abc'') = tokenize ''x = abc''"
  by code_simp

text \<open>
  Claim C6 at the lexer of the bracket dialect, which keeps a column counter instead of
  a stack and takes four columns off per DEDENT: on a program whose blocks are indented
  by two columns it emits two INDENT tokens and a single DEDENT.
\<close>

theorem bracket_lexer_unbalanced:
  "tokenize0 two_column_program =
     [IDENTIFIER0 ''a'', NEWLINE0, INDENT0 2, IDENTIFIER0 ''b'', NEWLINE0, INDENT0 2,
      IDENTIFIER0 ''c'', NEWLINE0, DEDENT0, IDENTIFIER0 ''d''] \<and>
   length (filter is_INDENT0 (tokenize0 two_column_program)) = 2 \<and>
   length (filter (\<lambda>t. t = DEDENT0) (tokenize0 two_column_program)) = 1"
  by code_simp

section \<open>Properties of the interpreter\<close>

lemma andThen_simps [simp]:
  "andThen (Ok x) f = f x" "andThen (Thrown e) f = Thrown e" "andThen OutOfFuel f = OutOfFuel"
  "andThen Concurrent f = Concurrent"
  by (simp_all add: andThen_def)

lemma andThen_eq_Ok: "(andThen r f = Ok y) = (\<exists>x. r = Ok x \<and> f x = Ok y)"
  by (cases r) simp_all

subsection \<open>Numbers\<close>

text \<open>
  Doubles, not rationals: the numeral 9007199254740993 reads as 9007199254740992, the
  sum of 0.1 and 0.2 is not 0.3, and the product of 0 and -1 is the negative zero, by
  which 1 divides to minus infinity.
\<close>

lemma numeral_is_rounded: "parseFloat ''9007199254740993'' = Fin 9007199254740992"
  by code_simp

lemma sum_is_rounded:
  "js_binop h ''=='' (js_binop h ''+'' (VNum (parseFloat ''0.1'')) (VNum (parseFloat ''0.2'')))
                     (VNum (parseFloat ''0.3'')) = VBool False"
  by code_simp

lemma zero_is_signed:
  "js_binop h ''*'' (VNum (Fin 0)) (VNum (Fin (- 1))) = VNum NegZero \<and>
   js_binop h ''/'' (VNum (Fin 1)) (VNum NegZero) = VNum NInf \<and>
   js_binop h ''=='' (VNum NegZero) (VNum (Fin 0)) = VBool True"
  by code_simp

subsection \<open>The arguments of a call\<close>

text \<open>
  In \<^verbatim>\<open>g(f(), x)\<close> the identifier \<open>x\<close> is read when the arguments are started, before
  the body of \<open>f\<close> runs and sets \<open>x\<close> to 2: the second argument is 1. In
  \<^verbatim>\<open>g(f(), f())\<close> the two calls of \<open>f\<close> run interleaved.
\<close>

lemma argument_read_before_call_runs:
  "(case run 10 bare_host (argument_order_program (Identifier ''x'')) (Interpreter []) of
      Ok (v, s) \<Rightarrow> Scope_get s globals ''r'' = VNum (Fin 1) \<and> Scope_get s globals ''x'' = VNum (Fin 2)
    | _ \<Rightarrow> False)"
  by code_simp

lemma two_calls_interleave:
  "run 10 bare_host (argument_order_program call_f) (Interpreter []) = Concurrent"
  by code_simp

subsection \<open>Loops\<close>

text \<open>
  Claim C1 at the for-statement. The loop of the for-statement looks only at the return
  sentinel after the body. In the script below the \<open>break\<close> of the first turn is
  consumed by nothing: the loop goes on to its end, each later turn stopping after the
  first statement of the body, so that \<open>count\<close> ends at 3 and \<open>i\<close> at 3; the flag
  stays in the frame and makes the enclosing block stop too, so \<open>after\<close> is never
  assigned.
\<close>

theorem for_break_not_consumed:
  "run 10 h for_break_program (Interpreter []) =
     Ok (VUndefined,
         \<lparr>frames =
            [\<lparr>valuesMap =
                [(''print'', VHostFunction ''print''),
                 (''activateCanvas'', VHostFunction ''activateCanvas''),
                 (''count'', VNum (Fin 3)), (''i'', VNum (Fin 3)),
                 (''__break__'', VBool True)],
              parent = None\<rparr>],
          objects = [], evalCache = [], stop = False, opCounter = 2\<rparr>)"
  by code_simp

text \<open>
  The while-statement does what claim C1 says: it removes the break flag and ends, and
  it removes the continue flag and goes on with the next test.
\<close>

lemma while_break_consumed:
  "run 10 h while_break_program (Interpreter []) =
     Ok (VUndefined,
         \<lparr>frames =
            [\<lparr>valuesMap =
                [(''print'', VHostFunction ''print''),
                 (''activateCanvas'', VHostFunction ''activateCanvas''),
                 (''count'', VNum (Fin 1)), (''after'', VNum (Fin 1))],
              parent = None\<rparr>],
          objects = [], evalCache = [], stop = False, opCounter = 4\<rparr>)"
  by code_simp

lemma while_continue_consumed:
  "run 10 h while_continue_program (Interpreter []) =
     Ok (VUndefined,
         \<lparr>frames =
            [\<lparr>valuesMap =
                [(''print'', VHostFunction ''print''),
                 (''activateCanvas'', VHostFunction ''activateCanvas''),
                 (''count'', VNum (Fin 3))],
              parent = None\<rparr>],
          objects = [], evalCache = [], stop = False, opCounter = 5\<rparr>)"
  by code_simp

text \<open>
  In general: when the body has left the break flag, the while-statement deletes it and
  ends; when it has left the continue flag, the while-statement deletes it and goes on.
\<close>

lemma while_loop_consumes_break:
  assumes "\<not> stop s" and "evaluate n h test sc s = Ok (t, s1)" and "truthy t"
    and "executeBlock n h body sc s1 = Ok (r2, s2)"
    and "\<not> has s2 sc ''__ret__''" and "has s2 sc ''__break__''"
  shows "while_loop (Suc n) h test body sc s = Ok (VUndefined, Scope_delete s2 sc ''__break__'')"
  using assms by (simp add: while_loop_Suc while_step_def executeBlock_def)

lemma while_loop_consumes_continue:
  assumes "\<not> stop s" and "evaluate n h test sc s = Ok (t, s1)" and "truthy t"
    and "executeBlock n h body sc s1 = Ok (r2, s2)"
    and "\<not> has s2 sc ''__ret__''" and "\<not> has s2 sc ''__break__''" and "has s2 sc ''__continue__''"
  shows "while_loop (Suc n) h test body sc s =
           while_loop n h test body sc (Scope_delete s2 sc ''__continue__'')"
  using assms by (simp add: while_loop_Suc while_step_def executeBlock_def)

text \<open>
  The for-statement goes on to the next turn whatever flags the body has left, short of
  the return sentinel; it deletes none of them.
\<close>

lemma for_loop_ignores_flags:
  assumes "\<not> stop s" and "num_le i e"
    and "executeBlock n h body sc (Scope_set s sc iterator (VNum i)) = Ok (r1, s1)"
    and "\<not> has s1 sc ''__ret__''"
  shows "for_loop (Suc n) h iterator i e body sc s = for_loop n h iterator (num_succ i) e body sc s1"
  using assms by (simp add: for_loop_Suc for_step_def executeBlock_def)

text \<open>
  Claim C2 fails in the current interpreter. The function \<open>f\<close> has the parameters
  \<open>a\<close> and \<open>b\<close> and is called with the one argument 1. The call binds \<open>b\<close> to
  \<open>undefined\<close> in its frame, as the second script shows, whose body reads \<open>a\<close> only.
  But \<open>evaluate\<close> takes the value \<open>undefined\<close> of a lookup for an unbound name, so
  reading \<open>b\<close> in the body raises the error \<open>Undefined: b\<close>. The older interpreter
  asks the scope whether it has the name, and there the same script reads \<open>b\<close> as
  \<open>undefined\<close> and returns it.
\<close>

theorem missing_parameter_read_throws:
  "run 10 bare_host missing_argument_program (Interpreter []) = Thrown (UndefinedName ''b'') \<and>
   run 10 bare_host unread_argument_program (Interpreter []) =
     Ok (VNum (Fin 1),
         \<lparr>frames =
            [\<lparr>valuesMap =
                [(''print'', VHostFunction ''print''),
                 (''activateCanvas'', VHostFunction ''activateCanvas''),
                 (''f'', VClosure [''a'', ''b''] [ReturnStatement (Identifier ''a'')] 0)],
              parent = None\<rparr>,
             \<lparr>valuesMap = [(''a'', VNum (Fin 1)), (''b'', VUndefined), (''__ret__'', VNum (Fin 1))],
              parent = Some 0\<rparr>],
          objects = [], evalCache = [], stop = False, opCounter = 2\<rparr>) \<and>
   run_sq 10 bare_host missing_argument_program (Interpreter_sq []) =
     Ok (VUndefined,
         \<lparr>frames =
            [\<lparr>valuesMap =
                [(''print'', VHostFunction ''print''),
                 (''input'', VHostFunction ''input''),
                 (''f'', VClosure [''a'', ''b''] [ReturnStatement (Identifier ''b'')] 0)],
              parent = None\<rparr>,
             \<lparr>valuesMap =
                [(''print'', VHostFunction ''print''),
                 (''input'', VHostFunction ''input''),
                 (''f'', VClosure [''a'', ''b''] [ReturnStatement (Identifier ''b'')] 0),
                 (''a'', VNum (Fin 1)), (''b'', VUndefined)],
              parent = None\<rparr>],
          objects = [], evalCache = [], stop = False, opCounter = 0\<rparr>)"
  by code_simp

text \<open>
  Claim C4. The left operand is evaluated first. If it is falsy, the value of an
  \<open>and\<close> is that of the left operand and the state is the one the left operand left:
  whatever the right operand is (a call, an expression that throws or never returns),
  it is not evaluated. If the left operand is truthy, the result is the evaluation of the
  right operand. For \<open>or\<close> the two cases are exchanged.
\<close>

theorem short_circuit:
  assumes "evaluate n h left sc s = Ok (l, s1)"
  shows "(\<not> truthy l \<longrightarrow> evaluate (Suc n) h (BinaryExpression left ''and'' right) sc s = Ok (l, s1)) \<and>
         (truthy l \<longrightarrow> evaluate (Suc n) h (BinaryExpression left ''and'' right) sc s = evaluate n h right sc s1) \<and>
         (truthy l \<longrightarrow> evaluate (Suc n) h (BinaryExpression left ''or'' right) sc s = Ok (l, s1)) \<and>
         (\<not> truthy l \<longrightarrow> evaluate (Suc n) h (BinaryExpression left ''or'' right) sc s = evaluate n h right sc s1)"
  using assms by (simp add: evaluate_Suc evaluate_step_def)

subsection \<open>Frames\<close>

lemma length_frames_Scope_set [simp]: "length (frames (Scope_set s a k v)) = length (frames s)"
  by (simp add: Scope_set_def)

lemma frame_at_Scope_set:
  "frame_at (Scope_set s a k v) b =
     (if b = a \<and> a < length (frames s)
      then (frame_at s a)\<lparr>valuesMap := AList.update k v (valuesMap (frame_at s a))\<rparr>
      else frame_at s b)"
  by (auto simp: Scope_set_def frame_at_def)

lemma parent_Scope_set [simp]: "parent (frame_at (Scope_set s a k v) b) = parent (frame_at s b)"
  by (simp add: frame_at_Scope_set)

lemma has_Scope_set:
  "has (Scope_set s a k v) b name =
     (if b = a \<and> a < length (frames s) then name = k \<or> has s a name else has s b name)"
  by (auto simp: has_def frame_at_Scope_set update_conv')

lemma has_in_range: "has s a name \<Longrightarrow> a < length (frames s)"
  by (auto simp: has_def frame_at_def split: if_splits)

lemma scope_chain_Scope_set [simp]: "scope_chain (Scope_set s f k v) a = scope_chain s a"
proof (induction s a rule: scope_chain.induct)
  case (1 s a)
  show ?case
    by (subst scope_chain.simps, subst (2) scope_chain.simps)
       (auto split: option.splits simp: 1)
qed

lemma find_binding_unfold:
  "find_binding s a name =
     (if has s a name then Some a
      else (case parent (frame_at s a) of
              None \<Rightarrow> None
            | Some p \<Rightarrow> if p < a then find_binding s p name else None))"
  unfolding find_binding_def
  by (subst scope_chain.simps) (simp split: option.splits)

lemma find_binding_has: "find_binding s a name = Some f \<Longrightarrow> has s f name"
  by (auto simp: find_binding_def find_Some_iff)

lemma Scope_get_chain:
  "Scope_get s a name =
     (case find_binding s a name of
        Some f \<Rightarrow> (case map_of (valuesMap (frame_at s f)) name of Some x \<Rightarrow> x | None \<Rightarrow> VUndefined)
      | None \<Rightarrow> VUndefined)"
proof (induction s a name rule: Scope_get.induct)
  case (1 s a name)
  show ?case
    by (subst Scope_get.simps, subst find_binding_unfold)
       (auto simp: has_def 1 split: option.splits)
qed

lemma Scope_assign_chain:
  "Scope_assign s a name v = map_option (\<lambda>f. Scope_set s f name v) (find_binding s a name)"
proof (induction s a name v rule: Scope_assign.induct)
  case (1 s a name v)
  show ?case
    by (subst Scope_assign.simps, subst find_binding_unfold)
       (auto simp: 1 split: option.splits)
qed

lemma Scope_get_unbound: "find_binding s a name = None \<Longrightarrow> Scope_get s a name = VUndefined"
  by (simp add: Scope_get_chain)

text \<open>After writing a name in the frame that the walk from \<open>a\<close> finds (or in \<open>a\<close> itself
  when none binds it), the walk from \<open>a\<close> finds that frame.\<close>

lemma find_binding_after_set:
  assumes "a < length (frames s)"
  shows "find_binding (Scope_set s (case find_binding s a name of Some f \<Rightarrow> f | None \<Rightarrow> a) name v) a name
         = Some (case find_binding s a name of Some f \<Rightarrow> f | None \<Rightarrow> a)"
proof (cases "find_binding s a name")
  case None
  with assms show ?thesis
    by (subst find_binding_unfold) (simp add: has_Scope_set)
next
  case (Some f)
  then have "find (\<lambda>g. has s g name) (scope_chain s a) = Some f"
    by (simp add: find_binding_def)
  then obtain i where i: "i < length (scope_chain s a)" "has s (scope_chain s a ! i) name"
      "f = scope_chain s a ! i" "\<forall>j<i. \<not> has s (scope_chain s a ! j) name"
    by (auto simp: find_Some_iff)
  from i(2,3) have fr: "f < length (frames s)" by (auto dest: has_in_range)
  have "find (\<lambda>g. has (Scope_set s f name v) g name) (scope_chain s a) = Some f"
    unfolding find_Some_iff
    by (rule exI[of _ i]) (use i fr in \<open>auto simp: has_Scope_set\<close>)
  with Some show ?thesis by (simp add: find_binding_def)
qed

lemma Scope_get_after_set:
  assumes "a < length (frames s)"
  shows "Scope_get (Scope_set s (case find_binding s a name of Some f \<Rightarrow> f | None \<Rightarrow> a) name v) a name = v"
proof -
  let ?t = "case find_binding s a name of Some f \<Rightarrow> f | None \<Rightarrow> a"
  have "?t < length (frames s)"
    using assms by (auto split: option.splits dest: find_binding_has has_in_range)
  then show ?thesis
    by (simp add: Scope_get_chain find_binding_after_set[OF assms] frame_at_Scope_set update_conv')
qed

subsection \<open>Assignment\<close>

lemma assignment_result:
  assumes "evaluate n h value sc s = Ok (v, s1)"
  shows "executeStatement (Suc n) h (Assignment name op value) sc s =
           Ok (VUndefined,
               Scope_set s1 (case find_binding s1 sc name of Some f \<Rightarrow> f | None \<Rightarrow> sc) name
                 (if op \<noteq> ''=''
                  then (let current = (if truthy (Scope_get s1 sc name) then Scope_get s1 sc name else VNum (Fin 0))
                        in if op = ''+='' then js_binop h ''+'' current v
                           else if op = ''-='' then js_binop h ''-'' current v
                           else if op = ''*='' then js_binop h ''*'' current v
                           else if op = ''/='' then js_binop h ''/'' current v
                           else v)
                  else v))"
  using assms
  by (simp add: executeStatement_Suc executeStatement_step_def Scope_assign_chain Let_def
           split: option.splits)

text \<open>
  The current interpreter walks the scope chain. Let \<open>target\<close> be the first frame that
  binds the name on the walk from the current frame outward to the root, or the current
  frame when no frame binds it. The assignment (with any operator) writes its value
  \<open>w\<close>, for the operator \<open>=\<close> the value of the right-hand side, under the name in
  \<open>target\<close>, keeps the other bindings and the parent of that frame, and leaves every
  other frame as it was. Lookup takes the value from the first frame of the same walk
  that binds the name, so that after the assignment the name reads as the value
  assigned.
\<close>

lemma assignment_walks_scope_chain:
  assumes "evaluate n h value sc s = Ok (v, s1)" and "sc < length (frames s1)"
  shows "\<exists>w. (op = ''='' \<longrightarrow> w = v) \<and>
           (let target = (case find_binding s1 sc name of Some f \<Rightarrow> f | None \<Rightarrow> sc);
                s2 = Scope_set s1 target name w
            in executeStatement (Suc n) h (Assignment name op value) sc s = Ok (VUndefined, s2) \<and>
               map_of (valuesMap (frame_at s2 target)) = (map_of (valuesMap (frame_at s1 target)))(name \<mapsto> w) \<and>
               parent (frame_at s2 target) = parent (frame_at s1 target) \<and>
               (\<forall>g. g \<noteq> target \<longrightarrow> frame_at s2 g = frame_at s1 g) \<and>
               Scope_get s1 sc name =
                 (case find_binding s1 sc name of
                    Some f \<Rightarrow> (case map_of (valuesMap (frame_at s1 f)) name of Some x \<Rightarrow> x | None \<Rightarrow> VUndefined)
                  | None \<Rightarrow> VUndefined) \<and>
               Scope_get s2 sc name = w)"
proof -
  let ?t = "case find_binding s1 sc name of Some f \<Rightarrow> f | None \<Rightarrow> sc"
  define w where "w =
     (if op \<noteq> ''=''
      then (let current = (if truthy (Scope_get s1 sc name) then Scope_get s1 sc name else VNum (Fin 0))
            in if op = ''+='' then js_binop h ''+'' current v
               else if op = ''-='' then js_binop h ''-'' current v
               else if op = ''*='' then js_binop h ''*'' current v
               else if op = ''/='' then js_binop h ''/'' current v
               else v)
      else v)"
  have eq: "op = ''='' \<longrightarrow> w = v" by (simp add: w_def)
  have run: "executeStatement (Suc n) h (Assignment name op value) sc s = Ok (VUndefined, Scope_set s1 ?t name w)"
    using assignment_result[OF assms(1), of name op] by (simp add: w_def)
  have t: "?t < length (frames s1)"
    using assms(2) by (auto split: option.splits dest: find_binding_has has_in_range)
  have rest: "map_of (valuesMap (frame_at (Scope_set s1 ?t name w) ?t))
                = (map_of (valuesMap (frame_at s1 ?t)))(name \<mapsto> w) \<and>
              parent (frame_at (Scope_set s1 ?t name w) ?t) = parent (frame_at s1 ?t) \<and>
              (\<forall>g. g \<noteq> ?t \<longrightarrow> frame_at (Scope_set s1 ?t name w) g = frame_at s1 g)"
    using t by (auto simp: frame_at_Scope_set update_conv')
  show ?thesis
    unfolding Let_def
    using eq run rest Scope_get_after_set[OF assms(2), of name w] Scope_get_chain[of s1 sc name]
    by (intro exI[of _ w]) simp
qed

text \<open>
  \<^verbatim>\<open>False and f()\<close> and \<^verbatim>\<open>True or f()\<close>, where evaluating \<^verbatim>\<open>f()\<close> would throw.
\<close>

theorem short_circuit_witness:
  "evaluate 2 bare_host (Literal (LBoolean False)) 0 two_frames = Ok (VBool False, two_frames) \<and>
   \<not> truthy (VBool False) \<and>
   evaluate (Suc 2) bare_host (BinaryExpression (Literal (LBoolean False)) ''and'' call_f) 0 two_frames
     = Ok (VBool False, two_frames) \<and>
   evaluate 2 bare_host (Literal (LBoolean True)) 0 two_frames = Ok (VBool True, two_frames) \<and>
   truthy (VBool True) \<and>
   evaluate (Suc 2) bare_host (BinaryExpression (Literal (LBoolean True)) ''or'' call_f) 0 two_frames
     = Ok (VBool True, two_frames) \<and>
   evaluate 2 bare_host call_f 0 two_frames = Thrown (UndefinedName ''f'')"
proof -
  have f: "evaluate 2 bare_host (Literal (LBoolean False)) 0 two_frames = Ok (VBool False, two_frames)"
    by code_simp
  have t: "evaluate 2 bare_host (Literal (LBoolean True)) 0 two_frames = Ok (VBool True, two_frames)"
    by code_simp
  have tr: "\<not> truthy (VBool False)" "truthy (VBool True)" by (simp_all add: truthy_def)
  have c: "evaluate 2 bare_host call_f 0 two_frames = Thrown (UndefinedName ''f'')"
    by code_simp
  from short_circuit[OF f, of call_f] short_circuit[OF t, of call_f] f t tr c
  show ?thesis by simp
qed

text \<open>
  From the frame of a call, \<^verbatim>\<open>x = 2\<close> changes the binding of the global frame and
  \<^verbatim>\<open>y = 2\<close> makes a binding in the frame of the call.
\<close>

lemma assignment_walks_scope_chain_example:
  "evaluate 1 bare_host (num 2) 1 two_frames = Ok (VNum (Fin 2), two_frames) \<and>
   1 < length (frames two_frames) \<and>
   find_binding two_frames 1 ''x'' = Some 0 \<and>
   executeStatement (Suc 1) bare_host (Assignment ''x'' ''='' (num 2)) 1 two_frames =
     Ok (VUndefined, Scope_set two_frames 0 ''x'' (VNum (Fin 2))) \<and>
   find_binding two_frames 1 ''y'' = None \<and>
   executeStatement (Suc 1) bare_host (Assignment ''y'' ''='' (num 2)) 1 two_frames =
     Ok (VUndefined, Scope_set two_frames 1 ''y'' (VNum (Fin 2))) \<and>
   frames (Scope_set two_frames 0 ''x'' (VNum (Fin 2))) =
     [\<lparr>valuesMap = [(''x'', VNum (Fin 2))], parent = None\<rparr>, \<lparr>valuesMap = [], parent = Some 0\<rparr>] \<and>
   frames (Scope_set two_frames 1 ''y'' (VNum (Fin 2))) =
     [\<lparr>valuesMap = [(''x'', VNum (Fin 1))], parent = None\<rparr>,
      \<lparr>valuesMap = [(''y'', VNum (Fin 2))], parent = Some 0\<rparr>]"
proof -
  have e: "evaluate 1 bare_host (num 2) 1 two_frames = Ok (VNum (Fin 2), two_frames)"
    by code_simp
  have l: "1 < length (frames two_frames)" by code_simp
  have x: "find_binding two_frames 1 ''x'' = Some 0" by code_simp
  have y: "find_binding two_frames 1 ''y'' = None" by code_simp
  have fx: "frames (Scope_set two_frames 0 ''x'' (VNum (Fin 2))) =
     [\<lparr>valuesMap = [(''x'', VNum (Fin 2))], parent = None\<rparr>, \<lparr>valuesMap = [], parent = Some 0\<rparr>]"
    by code_simp
  have fy: "frames (Scope_set two_frames 1 ''y'' (VNum (Fin 2))) =
     [\<lparr>valuesMap = [(''x'', VNum (Fin 1))], parent = None\<rparr>,
      \<lparr>valuesMap = [(''y'', VNum (Fin 2))], parent = Some 0\<rparr>]"
    by code_simp
  from assignment_walks_scope_chain[OF e l, of "''=''" "''x''"] x
  have rx: "executeStatement (Suc 1) bare_host (Assignment ''x'' ''='' (num 2)) 1 two_frames =
     Ok (VUndefined, Scope_set two_frames 0 ''x'' (VNum (Fin 2)))"
    by (auto simp: Let_def)
  from assignment_walks_scope_chain[OF e l, of "''=''" "''y''"] y
  have ry: "executeStatement (Suc 1) bare_host (Assignment ''y'' ''='' (num 2)) 1 two_frames =
     Ok (VUndefined, Scope_set two_frames 1 ''y'' (VNum (Fin 2)))"
    by (auto simp: Let_def)
  from e l x y fx fy rx ry show ?thesis by simp
qed

subsection \<open>Binding the parameters of a call\<close>

lemma update_fresh: "k \<notin> fst ` set al \<Longrightarrow> AList.update k v al = al @ [(k, v)]"
  by (induction al) auto

lemma foldl_update_distinct:
  "distinct (map fst xs) \<Longrightarrow> fst ` set al \<inter> fst ` set xs = {} \<Longrightarrow>
   foldl (\<lambda>m (k, v). AList.update k v m) al xs = al @ xs"
proof (induction xs arbitrary: al)
  case Nil
  then show ?case by simp
next
  case (Cons x xs)
  obtain k v where x: "x = (k, v)" by (cases x)
  from Cons.prems x have fresh: "k \<notin> fst ` set al" by auto
  have "foldl (\<lambda>m (k, v). AList.update k v m) (al @ [(k, v)]) xs = (al @ [(k, v)]) @ xs"
    using Cons.prems x by (intro Cons.IH) auto
  with fresh x show ?case by (simp add: update_fresh)
qed

lemma Scope_set_frames:
  "K < length (frames st) \<Longrightarrow>
   Scope_set st K k v =
     st\<lparr>frames := (frames st)[K := (frame_at st K)\<lparr>valuesMap := AList.update k v (valuesMap (frame_at st K))\<rparr>]\<rparr>"
  by (simp add: Scope_set_def)

lemma foldl_Scope_set:
  "K < length (frames st) \<Longrightarrow>
   foldl (\<lambda>st (k, v). Scope_set st K k v) st xs =
     st\<lparr>frames := (frames st)[K := (frame_at st K)
           \<lparr>valuesMap := foldl (\<lambda>m (k, v). AList.update k v m) (valuesMap (frame_at st K)) xs\<rparr>]\<rparr>"
proof (induction xs arbitrary: st)
  case Nil
  then show ?case by (simp add: frame_at_def)
next
  case (Cons x xs)
  obtain k v where x: "x = (k, v)" by (cases x)
  have len: "K < length (frames (Scope_set st K k v))" using Cons.prems by simp
  show ?case
    using Cons.prems
    by (simp add: x Cons.IH[OF len] frame_at_Scope_set) (simp add: Scope_set_def frame_at_def)
qed

lemma bind_params_as_foldl:
  "bind_params params args K s =
     foldl (\<lambda>st (k, v). Scope_set st K k v) s (map (\<lambda>i. (params ! i, arg_at args i)) [0..<length params])"
  by (simp add: bind_params_def foldl_map)

lemma param_keys: "map fst (map (\<lambda>i. (params ! i, f i)) [0..<length params]) = params"
  by (simp add: comp_def map_nth)

lemma bind_params_fresh_frame:
  assumes "distinct params"
  shows "bind_params params args (length (frames s)) (snd (new_Scope p s)) =
           s\<lparr>frames := frames s @ [\<lparr>valuesMap = map (\<lambda>i. (params ! i, arg_at args i)) [0..<length params],
                                     parent = p\<rparr>]\<rparr>"
proof -
  let ?xs = "map (\<lambda>i. (params ! i, arg_at args i)) [0..<length params]"
  let ?s1 = "snd (new_Scope p s)"
  have d: "distinct (map fst ?xs)" using assms by (simp only: param_keys)
  have K: "length (frames s) < length (frames ?s1)" by (simp add: new_Scope_def)
  have fr: "frame_at ?s1 (length (frames s)) = \<lparr>valuesMap = [], parent = p\<rparr>"
    by (simp add: new_Scope_def frame_at_def)
  show ?thesis
    unfolding bind_params_as_foldl foldl_Scope_set[OF K] fr
    using foldl_update_distinct[OF d, of "[]"]
    by (simp add: new_Scope_def)
qed

lemma map_of_params:
  assumes "distinct params" "i < length params"
  shows "map_of (map (\<lambda>i. (params ! i, f i)) [0..<length params]) (params ! i) = Some (f i)"
proof -
  let ?xs = "map (\<lambda>i. (params ! i, f i)) [0..<length params]"
  have "distinct (map fst ?xs)" using assms(1) by (simp only: param_keys)
  moreover have "(params ! i, f i) \<in> set ?xs" using assms(2) by auto
  ultimately show ?thesis by (rule map_of_is_SomeI)
qed

text \<open>
  The binding of parameters in general. A call of a closure makes a new frame below the
  frame of the declaration and binds exactly the parameters in it, in order: a parameter
  with an argument to that argument, a parameter past the end of the arguments to
  \<open>undefined\<close>; arguments past the last parameter are bound nowhere. Reading a
  parameter that is bound to \<open>undefined\<close> raises the error \<open>Undefined\<close>.
\<close>

lemma call_binds_parameters:
  assumes "distinct params"
  shows "let fnScope = length (frames s);
             s2 = bind_params params args fnScope (snd (new_Scope (Some scope) s))
         in apply_function ex h (VClosure params body scope) context args s =
              executeBlock_with ex body fnScope s2 \<and>
            frame_at s2 fnScope =
              \<lparr>valuesMap = map (\<lambda>i. (params ! i, arg_at args i)) [0..<length params], parent = Some scope\<rparr> \<and>
            map fst (valuesMap (frame_at s2 fnScope)) = params \<and>
            (\<forall>g. g < length (frames s) \<longrightarrow> frame_at s2 g = frame_at s g) \<and>
            (\<forall>j. j < length params \<and> j < length args \<longrightarrow>
                 map_of (valuesMap (frame_at s2 fnScope)) (params ! j) = Some (args ! j)) \<and>
            (\<forall>i. i < length params \<and> length args \<le> i \<longrightarrow>
                 map_of (valuesMap (frame_at s2 fnScope)) (params ! i) = Some VUndefined \<and>
                 evaluate (Suc n) h (Identifier (params ! i)) fnScope s2 = Thrown (UndefinedName (params ! i)))"
proof -
  let ?k = "length (frames s)"
  let ?s2 = "bind_params params args ?k (snd (new_Scope (Some scope) s))"
  have st: "?s2 = s\<lparr>frames := frames s @
               [\<lparr>valuesMap = map (\<lambda>i. (params ! i, arg_at args i)) [0..<length params], parent = Some scope\<rparr>]\<rparr>"
    by (rule bind_params_fresh_frame[OF assms])
  have fr: "frame_at ?s2 ?k =
      \<lparr>valuesMap = map (\<lambda>i. (params ! i, arg_at args i)) [0..<length params], parent = Some scope\<rparr>"
    by (simp add: st frame_at_def)
  have old: "frame_at ?s2 g = frame_at s g" if "g < length (frames s)" for g
    using that by (simp add: st frame_at_def nth_append)
  have app: "apply_function ex h (VClosure params body scope) context args s =
              executeBlock_with ex body ?k ?s2"
    by (simp add: apply_function_def new_Scope_def)
  have keys: "map fst (valuesMap (frame_at ?s2 ?k)) = params"
    by (simp only: fr frame.simps param_keys)
  have given: "map_of (valuesMap (frame_at ?s2 ?k)) (params ! j) = Some (args ! j)"
    if "j < length params" "j < length args" for j
    using that by (simp add: fr map_of_params[OF assms] arg_at_def)
  have missing: "map_of (valuesMap (frame_at ?s2 ?k)) (params ! i) = Some VUndefined"
    if "i < length params" "length args \<le> i" for i
    using that by (simp add: fr map_of_params[OF assms] arg_at_def)
  have throws: "evaluate (Suc n) h (Identifier (params ! i)) ?k ?s2 = Thrown (UndefinedName (params ! i))"
    if "i < length params" "length args \<le> i" for i
  proof -
    have "Scope_get ?s2 ?k (params ! i) = VUndefined"
      by (subst Scope_get.simps) (simp add: missing[OF that])
    then show ?thesis by (simp add: evaluate_Suc evaluate_step_def)
  qed
  from app fr keys old given missing throws show ?thesis
    unfolding Let_def by blast
qed

text \<open>The parameter \<open>a\<close> and the arguments 1 and 2: the call returns 1, and its frame
  binds \<open>a\<close> (and the return sentinel) only.\<close>

lemma extra_argument_ignored:
  "run 10 bare_host extra_argument_program (Interpreter []) =
     Ok (VNum (Fin 1),
         \<lparr>frames =
            [\<lparr>valuesMap =
                [(''print'', VHostFunction ''print''),
                 (''activateCanvas'', VHostFunction ''activateCanvas''),
                 (''f'', VClosure [''a''] [ReturnStatement (Identifier ''a'')] 0)],
              parent = None\<rparr>,
             \<lparr>valuesMap = [(''a'', VNum (Fin 1)), (''__ret__'', VNum (Fin 1))], parent = Some 0\<rparr>],
          objects = [], evalCache = [], stop = False, opCounter = 2\<rparr>)"
  by code_simp


subsection \<open>eval\<close>

lemma lift_host_simps [simp]: "lift_host (Inl e) = Thrown e" "lift_host (Inr x) = Ok x"
  by (simp_all add: lift_host_def)


text \<open>A statement that leaves the return sentinel bound in the frame of the scope ends
  the block: the result is the value of the sentinel, and what follows is not run.\<close>

lemma block_stops_at_return:
  assumes "\<not> stop s" and "ex node sc s = Ok (r, s1)" and "has s1 sc ''__ret__''"
  shows "executeBlock_from ex (node # rest) res sc s = Ok (Scope_get s1 sc ''__ret__'', s1)"
  using assms by simp

text \<open>The result of a program run in order is the result of its last statement.\<close>

lemma run_in_order_last:
  "run_in_order ex (body @ [st]) res sc s =
     andThen (run_in_order ex body res sc s) (\<lambda>(r, s1).
       andThen (ex st sc s1) (\<lambda>(r', s2). Ok (r', s2\<lparr>opCounter := opCounter s2 + 1\<rparr>)))"
proof (induction body arbitrary: res s)
  case Nil
  show ?case by (cases "ex st sc s") auto
next
  case (Cons node rest)
  show ?case by (cases "ex node sc s") (auto simp: Cons.IH)
qed



subsection \<open>Object definitions\<close>

lemma objects_Scope_set [simp]: "objects (Scope_set s a k v) = objects s"
  by (simp add: Scope_set_def)

lemma object_at_last: "objects t = os @ [x] \<Longrightarrow> object_at t (length os) = x"
  by (simp add: object_at_def)

lemma object_at_last_update:
  "objects t = os @ [x] \<Longrightarrow> a < length os \<Longrightarrow> object_at (t\<lparr>objects := (objects t)[a := ps]\<rparr>) (length os) = x"
  by (simp add: object_at_def nth_append)

lemma object_scope_state:
  assumes "distinct (map fst base)"
  shows "foldl (\<lambda>st (k, v). Scope_set st (length (frames s)) k v) (snd (new_Scope None s)) base =
           s\<lparr>frames := frames s @ [\<lparr>valuesMap = base, parent = None\<rparr>]\<rparr>"
proof -
  let ?s1 = "snd (new_Scope None s)"
  have K: "length (frames s) < length (frames ?s1)" by (simp add: new_Scope_def)
  have fr: "frame_at ?s1 (length (frames s)) = \<lparr>valuesMap = [], parent = None\<rparr>"
    by (simp add: new_Scope_def frame_at_def)
  show ?thesis
    unfolding foldl_Scope_set[OF K] fr
    using foldl_update_distinct[OF assms, of "[]"]
    by (simp add: new_Scope_def)
qed

lemma object_definition_step:
  assumes "pn \<noteq> []" and "Scope_get s sc pn = VObject a" and "distinct (map fst (object_at s a))"
  shows "executeStatement (Suc n) h (ObjectDefinition name (Some pn) properties) sc s =
           andThen (executeBlock n h properties (length (frames s))
                      (s\<lparr>frames := frames s @ [\<lparr>valuesMap = object_at s a, parent = None\<rparr>]\<rparr>))
             (\<lambda>(r, s3). Ok (VUndefined,
                 Scope_set (s3\<lparr>objects := objects s3 @ [valuesMap (frame_at s3 (length (frames s)))]\<rparr>)
                   sc name (VObject (length (objects s3)))))"
proof -
  have fst_new: "fst (new_Scope None s) = length (frames s)" by (simp add: new_Scope_def)
  show ?thesis
    using assms(1,2) object_scope_state[OF assms(3), of s]
    by (simp add: executeStatement_Suc executeStatement_step_def executeBlock_def Let_def
          truthy_def is_object_def own_entries_def case_prod_beta fst_new)
qed

text \<open>
  Object definitions in the current interpreter. Let the parent name be bound to an
  object. The body of the definition runs in a new frame that has no parent and starts
  with the parent's properties; when the body returns, the bindings of that frame are
  the properties of a fresh object, which is bound to the name in the current scope.
  It is another object than any object there was: whatever the properties of such an
  object are replaced by later, those of the new object are as they were at the
  definition. A name that is not a property of the parent is unbound in the body, even
  where the enclosing scope binds it.
\<close>

lemma object_definition_copies_parent:
  assumes "pn \<noteq> []" and "Scope_get s sc pn = VObject a" and "a < length (objects s)"
    and "distinct (map fst (object_at s a))" and "sc < length (frames s)"
  shows "let k = length (frames s);
             c = length (objects s);
             s2 = s\<lparr>frames := frames s @ [\<lparr>valuesMap = object_at s a, parent = None\<rparr>]\<rparr>;
             s' = Scope_set (s2\<lparr>objects := objects s @ [object_at s a]\<rparr>) sc name (VObject c)
         in (\<forall>properties.
               executeStatement (Suc n) h (ObjectDefinition name (Some pn) properties) sc s =
                 andThen (executeBlock n h properties k s2)
                   (\<lambda>(r, s3). Ok (VUndefined,
                       Scope_set (s3\<lparr>objects := objects s3 @ [valuesMap (frame_at s3 k)]\<rparr>)
                         sc name (VObject (length (objects s3)))))) \<and>
            frame_at s2 k = \<lparr>valuesMap = object_at s a, parent = None\<rparr> \<and>
            executeStatement (Suc n) h (ObjectDefinition name (Some pn) []) sc s = Ok (VUndefined, s') \<and>
            Scope_get s' sc name = VObject c \<and> c \<noteq> a \<and>
            object_at s' c = object_at s a \<and>
            (\<forall>ps. object_at (s'\<lparr>objects := (objects s')[a := ps]\<rparr>) c = object_at s a) \<and>
            (\<forall>x. map_of (object_at s a) x = None \<and> \<not> stop s \<longrightarrow>
                 executeStatement (Suc (Suc (Suc n))) h
                   (ObjectDefinition name (Some pn) [ExpressionStatement (Identifier x)]) sc s
                 = Thrown (UndefinedName x)) \<and>
            (\<forall>properties r s3. executeBlock n h properties k s2 = Ok (r, s3) \<longrightarrow>
                 executeStatement (Suc n) h (ObjectDefinition name (Some pn) properties) sc s =
                   Ok (VUndefined,
                       Scope_set (s3\<lparr>objects := objects s3 @ [valuesMap (frame_at s3 k)]\<rparr>)
                         sc name (VObject (length (objects s3)))) \<and>
                 object_at (Scope_set (s3\<lparr>objects := objects s3 @ [valuesMap (frame_at s3 k)]\<rparr>)
                              sc name (VObject (length (objects s3)))) (length (objects s3))
                   = valuesMap (frame_at s3 k) \<and>
                 (\<forall>b ps. b < length (objects s3) \<longrightarrow>
                    object_at ((Scope_set (s3\<lparr>objects := objects s3 @ [valuesMap (frame_at s3 k)]\<rparr>)
                                  sc name (VObject (length (objects s3))))
                               \<lparr>objects := (objects (Scope_set (s3\<lparr>objects := objects s3 @ [valuesMap (frame_at s3 k)]\<rparr>)
                                                      sc name (VObject (length (objects s3)))))[b := ps]\<rparr>)
                      (length (objects s3))
                    = valuesMap (frame_at s3 k)))"
proof -
  let ?k = "length (frames s)"
  let ?c = "length (objects s)"
  let ?s2 = "s\<lparr>frames := frames s @ [\<lparr>valuesMap = object_at s a, parent = None\<rparr>]\<rparr>"
  let ?s' = "Scope_set (?s2\<lparr>objects := objects s @ [object_at s a]\<rparr>) sc name (VObject ?c)"
  note step = object_definition_step[OF assms(1,2,4)]
  have fr: "frame_at ?s2 ?k = \<lparr>valuesMap = object_at s a, parent = None\<rparr>"
    by (simp add: frame_at_def)
  have empty: "executeStatement (Suc n) h (ObjectDefinition name (Some pn) []) sc s = Ok (VUndefined, ?s')"
    by (simp add: step executeBlock_def executeBlock_with_def fr)
  have get: "Scope_get ?s' sc name = VObject ?c"
    using assms(5)
    by (subst Scope_get.simps) (simp add: frame_at_Scope_set update_conv')
  have objs: "objects ?s' = objects s @ [object_at s a]" by simp
  have child: "object_at ?s' ?c = object_at s a" by (rule object_at_last[OF objs])
  have indep: "object_at (?s'\<lparr>objects := (objects ?s')[a := ps]\<rparr>) ?c = object_at s a" for ps
    by (rule object_at_last_update[OF objs assms(3)])
  have isolated: "executeStatement (Suc (Suc (Suc n))) h
                   (ObjectDefinition name (Some pn) [ExpressionStatement (Identifier x)]) sc s
                 = Thrown (UndefinedName x)"
    if "map_of (object_at s a) x = None" "\<not> stop s" for x
  proof -
    have "Scope_get ?s2 ?k x = VUndefined"
      using that(1) by (subst Scope_get.simps) (simp add: fr)
    then have "executeStatement (Suc (Suc n)) h (ExpressionStatement (Identifier x)) ?k ?s2
                 = Thrown (UndefinedName x)"
      by (simp add: executeStatement_Suc executeStatement_step_def evaluate_Suc evaluate_step_def)
    with that(2) show ?thesis
      by (simp add: step executeBlock_def executeBlock_with_def)
  qed
  have general:
    "executeStatement (Suc n) h (ObjectDefinition name (Some pn) properties) sc s =
       Ok (VUndefined,
           Scope_set (s3\<lparr>objects := objects s3 @ [valuesMap (frame_at s3 ?k)]\<rparr>)
             sc name (VObject (length (objects s3)))) \<and>
     object_at (Scope_set (s3\<lparr>objects := objects s3 @ [valuesMap (frame_at s3 ?k)]\<rparr>)
                  sc name (VObject (length (objects s3)))) (length (objects s3))
       = valuesMap (frame_at s3 ?k) \<and>
     (\<forall>b ps. b < length (objects s3) \<longrightarrow>
        object_at ((Scope_set (s3\<lparr>objects := objects s3 @ [valuesMap (frame_at s3 ?k)]\<rparr>)
                      sc name (VObject (length (objects s3))))
                   \<lparr>objects := (objects (Scope_set (s3\<lparr>objects := objects s3 @ [valuesMap (frame_at s3 ?k)]\<rparr>)
                                          sc name (VObject (length (objects s3)))))[b := ps]\<rparr>)
          (length (objects s3))
        = valuesMap (frame_at s3 ?k))"
    if "executeBlock n h properties ?k ?s2 = Ok (r, s3)" for properties r s3
  proof -
    let ?t = "Scope_set (s3\<lparr>objects := objects s3 @ [valuesMap (frame_at s3 ?k)]\<rparr>)
                sc name (VObject (length (objects s3)))"
    have o: "objects ?t = objects s3 @ [valuesMap (frame_at s3 ?k)]" by simp
    have 1: "executeStatement (Suc n) h (ObjectDefinition name (Some pn) properties) sc s = Ok (VUndefined, ?t)"
      by (simp add: step that)
    have 2: "object_at ?t (length (objects s3)) = valuesMap (frame_at s3 ?k)"
      by (rule object_at_last[OF o])
    have 3: "object_at (?t\<lparr>objects := (objects ?t)[b := ps]\<rparr>) (length (objects s3)) = valuesMap (frame_at s3 ?k)"
      if "b < length (objects s3)" for b ps
      by (rule object_at_last_update[OF o that])
    from 1 2 3 show ?thesis by blast
  qed
  from step fr empty get child indep isolated assms(3) general
  show ?thesis unfolding Let_def by blast
qed

text \<open>
  \<open>Child\<close> defined from \<open>Base\<close>: changing \<open>x\<close> of \<open>Base\<close> to 2 afterwards leaves \<open>x\<close> of
  \<open>Child\<close> at 1, and the global \<open>y\<close> cannot be read in the body.
\<close>

lemma object_definition_copies_parent_example:
  "''Base'' \<noteq> [] \<and> Scope_get base_state 0 ''Base'' = VObject 0 \<and> 0 < length (objects base_state) \<and>
   distinct (map fst (object_at base_state 0)) \<and> 0 < length (frames base_state) \<and>
   executeStatement (Suc 3) bare_host (ObjectDefinition ''Child'' (Some ''Base'') []) 0 base_state
     = Ok (VUndefined, child_state) \<and>
   object_at child_state 1 = [(''x'', VNum (Fin 1))] \<and>
   object_at (child_state\<lparr>objects := (objects child_state)[0 := [(''x'', VNum (Fin 2))]]\<rparr>) 0
     = [(''x'', VNum (Fin 2))] \<and>
   object_at (child_state\<lparr>objects := (objects child_state)[0 := [(''x'', VNum (Fin 2))]]\<rparr>) 1
     = [(''x'', VNum (Fin 1))] \<and>
   map_of (object_at base_state 0) ''y'' = None \<and> \<not> stop base_state \<and>
   Scope_get base_state 0 ''y'' = VNum (Fin 9) \<and>
   executeStatement (Suc (Suc (Suc 3))) bare_host
     (ObjectDefinition ''Child'' (Some ''Base'') [ExpressionStatement (Identifier ''y'')]) 0 base_state
     = Thrown (UndefinedName ''y'')"
proof -
  have n: "''Base'' \<noteq> []" by simp
  have p: "Scope_get base_state 0 ''Base'' = VObject 0" by code_simp
  have a: "0 < length (objects base_state)" by code_simp
  have d: "distinct (map fst (object_at base_state 0))" by code_simp
  have f: "0 < length (frames base_state)" by code_simp
  have c: "Scope_set
             (base_state\<lparr>frames := frames base_state @ [\<lparr>valuesMap = object_at base_state 0, parent = None\<rparr>],
                         objects := objects base_state @ [object_at base_state 0]\<rparr>)
             0 ''Child'' (VObject (length (objects base_state))) = child_state"
    by code_simp
  have o: "object_at child_state 1 = [(''x'', VNum (Fin 1))]" by code_simp
  have m0: "object_at (child_state\<lparr>objects := (objects child_state)[0 := [(''x'', VNum (Fin 2))]]\<rparr>) 0
     = [(''x'', VNum (Fin 2))]" by code_simp
  have l: "length (objects base_state) = 1" by code_simp
  have oa: "object_at base_state 0 = [(''x'', VNum (Fin 1))]" by code_simp
  have y: "map_of (object_at base_state 0) ''y'' = None" by code_simp
  have st: "\<not> stop base_state" by code_simp
  have gy: "Scope_get base_state 0 ''y'' = VNum (Fin 9)" by code_simp
  note T = object_definition_copies_parent[OF n p a d f, of "''Child''" 3 bare_host, unfolded Let_def]
  note T3 = T[THEN conjunct2, THEN conjunct2, THEN conjunct1]
  note T7 = T[THEN conjunct2, THEN conjunct2, THEN conjunct2, THEN conjunct2, THEN conjunct2,
              THEN conjunct2, THEN conjunct1]
  note T8 = T[THEN conjunct2, THEN conjunct2, THEN conjunct2, THEN conjunct2, THEN conjunct2,
              THEN conjunct2, THEN conjunct2, THEN conjunct1]
  have e: "executeStatement (Suc 3) bare_host (ObjectDefinition ''Child'' (Some ''Base'') []) 0 base_state
          = Ok (VUndefined, child_state)"
    using T3 by (simp only: c)
  have i: "object_at (child_state\<lparr>objects := (objects child_state)[0 := [(''x'', VNum (Fin 2))]]\<rparr>) 1
          = [(''x'', VNum (Fin 1))]"
    using T7[rule_format, of "[(''x'', VNum (Fin 2))]", unfolded c] by (simp only: l oa)
  have t: "executeStatement (Suc (Suc (Suc 3))) bare_host
          (ObjectDefinition ''Child'' (Some ''Base'') [ExpressionStatement (Identifier ''y'')]) 0 base_state
          = Thrown (UndefinedName ''y'')"
    using T8[rule_format, of "''y''"] y st by blast
  from e i t n p a d f o m0 y st gy show ?thesis by simp
qed

subsection \<open>The return sentinel is never removed\<close>

lemma preservesD: "preserves R a g \<Longrightarrow> g s = Ok (r, s') \<Longrightarrow> has s a R \<Longrightarrow> has s' a R"
  unfolding preserves_def by blast

lemma preservesI: "(\<And>s r s'. g s = Ok (r, s') \<Longrightarrow> has s a R \<Longrightarrow> has s' a R) \<Longrightarrow> preserves R a g"
  unfolding preserves_def by blast

lemma andThen_OkE:
  assumes "andThen r f = Ok y"
  obtains x where "r = Ok x" "f x = Ok y"
  using assms by (cases r) simp_all

lemma andThen_pair_OkE:
  assumes "andThen r (\<lambda>(a, b). f a b) = Ok y"
  obtains a b where "r = Ok (a, b)" "f a b = Ok y"
  using assms by (cases r) auto

lemma has_opCounter [simp]: "has (s\<lparr>opCounter := n\<rparr>) a name = has s a name"
  by (simp add: has_def frame_at_def)

lemma has_evalCache [simp]: "has (s\<lparr>evalCache := c\<rparr>) a name = has s a name"
  by (simp add: has_def frame_at_def)

lemma has_objects [simp]: "has (s\<lparr>objects := c\<rparr>) a name = has s a name"
  by (simp add: has_def frame_at_def)

lemma has_stop [simp]: "has (s\<lparr>stop := c\<rparr>) a name = has s a name"
  by (simp add: has_def frame_at_def)

lemma has_Scope_set_keep: "has s a name \<Longrightarrow> has (Scope_set s b k v) a name"
  by (auto simp: has_Scope_set)

lemma has_Scope_delete_keep: "has s a name \<Longrightarrow> name \<noteq> k \<Longrightarrow> has (Scope_delete s b k) a name"
  by (auto simp: has_def Scope_delete_def frame_at_def delete_conv' nth_list_update split: if_splits)

lemma has_new_Scope_keep: "has s a name \<Longrightarrow> has (snd (new_Scope p s)) a name"
  by (auto simp: has_def new_Scope_def frame_at_def nth_append split: if_splits)

lemma has_foldl_Scope_set_keep:
  "has s a name \<Longrightarrow> has (foldl (\<lambda>st (k, v). Scope_set st K k v) s xs) a name"
  by (induction xs arbitrary: s) (auto simp: has_Scope_set_keep)

lemma has_bind_params_keep: "has s a name \<Longrightarrow> has (bind_params params args K s) a name"
  unfolding bind_params_as_foldl by (rule has_foldl_Scope_set_keep)

lemma has_Scope_assign_keep: "Scope_assign s b k v = Some s' \<Longrightarrow> has s a name \<Longrightarrow> has s' a name"
  by (auto simp: Scope_assign_chain has_Scope_set_keep)

lemma executeBlock_from_keeps:
  assumes ex: "\<And>x c. preserves R a (ex x c)"
  shows "preserves R a (executeBlock_from ex stmts res sc)"
proof (induction stmts arbitrary: res)
  case Nil
  show ?case by (rule preservesI) simp
next
  case (Cons node rest)
  show ?case
  proof (rule preservesI)
    fix s r s'
    assume run: "executeBlock_from ex (node # rest) res sc s = Ok (r, s')" and h: "has s a R"
    show "has s' a R"
    proof (cases "stop s")
      case True
      with run h show ?thesis by simp
    next
      case False
      define K where "K = (\<lambda>r1 s1.
             if has s1 sc ''__ret__'' then Ok (Scope_get s1 sc ''__ret__'', s1)
             else if has s1 sc ''__break__'' then Ok (r1, s1)
             else if has s1 sc ''__continue__'' then Ok (r1, s1)
             else executeBlock_from ex rest r1 sc (s1\<lparr>opCounter := opCounter s1 + 1\<rparr>))"
      from run False have "andThen (ex node sc s) (\<lambda>(r1, s1). K r1 s1) = Ok (r, s')"
        by (simp add: K_def)
      then obtain r1 s1 where 1: "ex node sc s = Ok (r1, s1)" and 2: "K r1 s1 = Ok (r, s')"
        by (rule andThen_pair_OkE)
      from preservesD[OF ex 1 h] have h1: "has s1 a R" .
      then have h2: "has (s1\<lparr>opCounter := opCounter s1 + 1\<rparr>) a R"
        by simp
      show ?thesis
      proof (cases "has s1 sc ''__ret__'' \<or> has s1 sc ''__break__'' \<or> has s1 sc ''__continue__''")
        case True
        with 2 have "s' = s1" by (auto simp: K_def split: if_splits)
        with h1 show ?thesis by simp
      next
        case False
        with 2 have "executeBlock_from ex rest r1 sc (s1\<lparr>opCounter := opCounter s1 + 1\<rparr>) = Ok (r, s')"
          by (simp add: K_def)
        from preservesD[OF Cons.IH this h2] show ?thesis .
      qed
    qed
  qed
qed

lemma executeBlock_with_keeps:
  assumes "\<And>x c. preserves R a (ex x c)"
  shows "preserves R a (executeBlock_with ex stmts sc)"
  using executeBlock_from_keeps[of R a ex stmts VNull sc, OF assms]
  by (simp add: preserves_def executeBlock_with_def)

lemma evaluate_each_state:
  "evaluate_each sync ev es sc s = Ok (vs, s') \<Longrightarrow> s' = s \<or> (\<exists>e v. ev e sc s = Ok (v, s'))"
proof (induction es arbitrary: vs s')
  case Nil
  then show ?case by simp
next
  case (Cons e rest)
  from Cons.prems obtain v s1 where 1: "ev e sc s = Ok (v, s1)" and
    2: "andThen (evaluate_each sync ev rest sc s) (\<lambda>(vs, s2). Ok (v # vs, if sync e then s2 else s1))
          = Ok (vs, s')"
    by simp (erule andThen_pair_OkE)
  from 2 obtain ws s2 where 3: "evaluate_each sync ev rest sc s = Ok (ws, s2)"
    and 4: "s' = (if sync e then s2 else s1)"
    by (rule andThen_pair_OkE) auto
  show ?case
  proof (cases "sync e")
    case True
    with 4 Cons.IH[OF 3] show ?thesis by simp
  next
    case False
    with 4 1 show ?thesis by auto
  qed
qed

lemma evaluate_all_keeps:
  assumes ev: "\<And>e c. preserves R a (ev e c)"
  shows "preserves R a (evaluate_all sync ev es sc)"
proof (rule preservesI)
  fix s r s'
  assume run: "evaluate_all sync ev es sc s = Ok (r, s')" and h: "has s a R"
  from run have "evaluate_each sync ev es sc s = Ok (r, s')"
    by (auto simp: evaluate_all_def split: if_splits elim!: andThen_OkE)
  from evaluate_each_state[OF this] show "has s' a R"
  proof
    assume "s' = s"
    with h show ?thesis by simp
  next
    assume "\<exists>e v. ev e sc s = Ok (v, s')"
    then obtain e v where "ev e sc s = Ok (v, s')" by blast
    from preservesD[OF ev this h] show ?thesis .
  qed
qed

lemma execute_elifs_keeps:
  assumes ev: "\<And>e c. preserves R a (ev e c)"
    and ex: "\<And>x c. preserves R a (ex x c)"
  shows "preserves R a (execute_elifs ev ex elifs alternate sc)"
proof (induction elifs)
  case Nil
  show ?case
  proof (rule preservesI)
    fix s r s'
    assume run: "execute_elifs ev ex [] alternate sc s = Ok (r, s')" and h: "has s a R"
    show "has s' a R"
    proof (cases alternate)
      case None
      with run h show ?thesis by simp
    next
      case (Some body)
      with run have "executeBlock_with ex body sc s = Ok (r, s')" by simp
      from preservesD[OF executeBlock_with_keeps[OF ex] this h] show ?thesis .
    qed
  qed
next
  case (Cons elif rest)
  show ?case
  proof (rule preservesI)
    fix s r s'
    assume run: "execute_elifs ev ex (elif # rest) alternate sc s = Ok (r, s')" and h: "has s a R"
    from run obtain t s1 where
      1: "ev (fst elif) sc s = Ok (t, s1)" and
      2: "(if truthy t then executeBlock_with ex (snd elif) sc s1
           else execute_elifs ev ex rest alternate sc s1) = Ok (r, s')"
      by (auto elim!: andThen_OkE)
    from preservesD[OF ev 1 h] have h1: "has s1 a R" .
    show "has s' a R"
    proof (cases "truthy t")
      case True
      with 2 have "executeBlock_with ex (snd elif) sc s1 = Ok (r, s')" by simp
      from preservesD[OF executeBlock_with_keeps[OF ex] this h1] show ?thesis .
    next
      case False
      with 2 have "execute_elifs ev ex rest alternate sc s1 = Ok (r, s')" by simp
      from preservesD[OF Cons.IH this h1] show ?thesis .
    qed
  qed
qed

lemma apply_function_keeps:
  assumes ex: "\<And>x c. preserves R a (ex x c)"
  shows "preserves R a (apply_function ex h fn context args)"
proof (rule preservesI)
  fix s r s'
  assume run: "apply_function ex h fn context args s = Ok (r, s')" and h: "has s a R"
  show "has s' a R"
  proof (cases fn)
    case (VClosure params body scope)
    let ?s2 = "bind_params params args (length (frames s)) (snd (new_Scope (Some scope) s))"
    from h have h2: "has ?s2 a R"
      by (intro has_bind_params_keep has_new_Scope_keep)
    from run VClosure have "executeBlock_with ex body (length (frames s)) ?s2 = Ok (r, s')"
      by (simp add: apply_function_def new_Scope_def)
    from preservesD[OF executeBlock_with_keeps[OF ex] this h2] show ?thesis .
  next
    case (VHostFunction name)
    with run h show ?thesis
      by (auto simp: apply_function_def elim!: andThen_OkE)
  qed (use run in \<open>simp_all add: apply_function_def\<close>)
qed

lemma evaluate_step_keeps:
  assumes ev: "\<And>e c. preserves R a (ev e c)" and ex: "\<And>x c. preserves R a (ex x c)"
  shows "preserves R a (evaluate_step ev ex h node sc)"
proof (rule preservesI)
  fix s r s'
  assume run: "evaluate_step ev ex h node sc s = Ok (r, s')" and h: "has s a R"
  note evD = preservesD[OF ev]
  note blockD = preservesD[OF executeBlock_with_keeps[OF ex]]
  note allD = preservesD[OF evaluate_all_keeps[OF ev]]
  note applyD = preservesD[OF apply_function_keeps[OF ex]]
  show "has s' a R"
  proof (cases node)
    case (Literal l)
    with run h show ?thesis by (simp add: evaluate_step_def)
  next
    case (Identifier x)
    with run h show ?thesis by (auto simp: evaluate_step_def Let_def split: if_splits)
  next
    case (ArrayLiteral es)
    with run h show ?thesis by (simp add: evaluate_step_def)
  next
    case (BinaryExpression left op right)
    with run obtain l s1 where 1: "ev left sc s = Ok (l, s1)" and
      2: "(if op = ''and'' then (if \<not> truthy l then Ok (l, s1) else ev right sc s1)
           else if op = ''or'' then (if truthy l then Ok (l, s1) else ev right sc s1)
           else andThen (ev right sc s1) (\<lambda>(r, s2). Ok (binary_switch h op l r, s2))) = Ok (r, s')"
      by (simp add: evaluate_step_def) (erule andThen_pair_OkE)
    from evD[OF 1 h] have h1: "has s1 a R" .
    from 2 consider "s' = s1" | v where "ev right sc s1 = Ok (v, s')"
      by (auto split: if_splits elim!: andThen_pair_OkE)
    then show ?thesis
    proof cases
      case 1
      with h1 show ?thesis by simp
    next
      case 2
      from evD[OF this h1] show ?thesis .
    qed
  next
    case (MemberExpression e1 p1)
    with run obtain v1 s1 where 1: "ev e1 sc s = Ok (v1, s1)" and 2: "s' = s1"
      by (simp add: evaluate_step_def) (erule andThen_pair_OkE, auto split: if_splits)
    from evD[OF 1 h] 2 show ?thesis by simp
  next
    case (CallExpression callee args)
    from run CallExpression obtain fn ctx s1 where
      1: "(case callee of
             MemberExpression ob prop \<Rightarrow>
               andThen (ev ob sc s) (\<lambda>(context, s1).
                 Ok ((if truthy context \<and> is_object context
                      then get_property h s1 context prop else VUndefined, context), s1))
           | _ \<Rightarrow> andThen (ev callee sc s) (\<lambda>(fn, s1). Ok ((fn, VNull), s1))) = Ok ((fn, ctx), s1)"
      and 2: "andThen (evaluate_all synchronous ev args sc s1) (\<lambda>(vs, s2).
                 if \<not> is_function fn then Thrown NotAFunction
                 else apply_function ex h fn ctx vs s2) = Ok (r, s')"
      by (simp add: evaluate_step_def) (erule andThen_pair_OkE, auto)
    from 1 obtain e v where "ev e sc s = Ok (v, s1)"
      by (cases callee) (auto elim!: andThen_pair_OkE)
    from evD[OF this h] have h1: "has s1 a R" .
    from 2 obtain vs s2 where 3: "evaluate_all synchronous ev args sc s1 = Ok (vs, s2)"
      and 4: "apply_function ex h fn ctx vs s2 = Ok (r, s')"
      by (auto elim!: andThen_pair_OkE split: if_splits)
    from applyD[OF 4 allD[OF 3 h1]] show ?thesis .
  next
    case (EvalCall argument)
    from run EvalCall obtain cv s1 where 1: "ev argument sc s = Ok (cv, s1)" and
      2: "andThen
           (case map_of (evalCache s1) (js_String h cv) of
              Some ast \<Rightarrow> Ok (ast, s1)
            | None \<Rightarrow>
                andThen (lift_host (compile h (js_String h cv))) (\<lambda>ast.
                  Ok (ast, s1\<lparr>evalCache := AList.update (js_String h cv) ast (evalCache s1)\<rparr>)))
           (\<lambda>(ast, s2). case ast of [ExpressionStatement e] \<Rightarrow> ev e sc s2
                                 | _ \<Rightarrow> executeBlock_with ex ast sc s2) = Ok (r, s')"
      by (simp add: evaluate_step_def Let_def) (erule andThen_pair_OkE)
    from evD[OF 1 h] have h1: "has s1 a R" .
    from 2 obtain ast s2 where
      c: "(case map_of (evalCache s1) (js_String h cv) of
              Some ast \<Rightarrow> Ok (ast, s1)
            | None \<Rightarrow>
                andThen (lift_host (compile h (js_String h cv))) (\<lambda>ast.
                  Ok (ast, s1\<lparr>evalCache := AList.update (js_String h cv) ast (evalCache s1)\<rparr>)))
          = Ok (ast, s2)" and
      4: "(case ast of [ExpressionStatement e] \<Rightarrow> ev e sc s2
                     | _ \<Rightarrow> executeBlock_with ex ast sc s2) = Ok (r, s')"
      by (rule andThen_pair_OkE)
    from c h1 have 3: "has s2 a R"
      by (auto elim!: andThen_OkE split: option.splits)
    from 4 consider e where "ev e sc s2 = Ok (r, s')" | "executeBlock_with ex ast sc s2 = Ok (r, s')"
      by (auto split: list.splits stmt.splits)
    then show ?thesis
    proof cases
      case 1
      from evD[OF this 3] show ?thesis .
    next
      case 2
      from blockD[OF this 3] show ?thesis .
    qed
  qed
qed

lemma executeStatement_step_keeps:
  assumes ev: "\<And>e c. preserves R a (ev e c)" and ex: "\<And>x c. preserves R a (ex x c)"
    and wl: "\<And>t b c. preserves R a (wl t b c)" and fl: "\<And>it i e b c. preserves R a (fl it i e b c)"
  shows "preserves R a (executeStatement_step ev ex wl fl h node sc)"
proof (rule preservesI)
  fix s r s'
  assume run: "executeStatement_step ev ex wl fl h node sc s = Ok (r, s')" and h: "has s a R"
  note evD = preservesD[OF ev]
  note blockD = preservesD[OF executeBlock_with_keeps[OF ex]]
  note elifsD = preservesD[OF execute_elifs_keeps[OF ev ex]]
  show "has s' a R"
  proof (cases node)
    case (ImportStatement moduleName)
    with run h show ?thesis
      by (auto simp: executeStatement_step_def has_Scope_set_keep elim!: andThen_OkE)
  next
    case (FunctionDeclaration name params body)
    with run h show ?thesis
      by (auto simp: executeStatement_step_def has_Scope_set_keep)
  next
    case (ObjectDefinition name parent_name properties)
    define base where "base = (case parent_name of
                         None \<Rightarrow> []
                       | Some pn \<Rightarrow>
                           if pn = [] then []
                           else (let p = Scope_get s sc pn
                                 in if truthy p \<and> is_object p then own_entries h s p else []))"
    define k where "k = length (frames s)"
    define s2 where "s2 = foldl (\<lambda>st (key, v). Scope_set st k key v) (snd (new_Scope None s)) base"
    from h have h2: "has s2 a R"
      unfolding s2_def by (intro has_foldl_Scope_set_keep has_new_Scope_keep)
    from run ObjectDefinition obtain r3 s3 where
      1: "executeBlock_with ex properties k s2 = Ok (r3, s3)" and
      2: "s' = Scope_set (s3\<lparr>objects := objects s3 @ [valuesMap (frame_at s3 k)]\<rparr>)
                 sc name (VObject (length (objects s3)))"
      by (simp add: executeStatement_step_def Let_def new_Scope_def base_def k_def s2_def)
         (erule andThen_pair_OkE, simp)
    from blockD[OF 1 h2] 2 show ?thesis
      by (simp add: has_Scope_set_keep)
  next
    case (Assignment name op val)
    with run obtain v s1 where 1: "ev val sc s = Ok (v, s1)" and
      2: "\<exists>w. (case Scope_assign s1 sc name w of Some s2 \<Rightarrow> s2 | None \<Rightarrow> Scope_set s1 sc name w) = s'"
      by (simp add: executeStatement_step_def Let_def) (erule andThen_pair_OkE, auto)
    from evD[OF 1 h] have "has s1 a R" .
    with 2 show ?thesis
      by (auto split: option.splits simp: has_Scope_set_keep dest: has_Scope_assign_keep)
  next
    case (IfStatement test consequent elifs alternate)
    with run obtain t s1 where 1: "ev test sc s = Ok (t, s1)" and
      2: "(if truthy t then executeBlock_with ex consequent sc s1
           else execute_elifs ev ex elifs alternate sc s1) = Ok (r, s')"
      by (simp add: executeStatement_step_def) (erule andThen_pair_OkE)
    from evD[OF 1 h] have h1: "has s1 a R" .
    show ?thesis
    proof (cases "truthy t")
      case True
      with 2 have "executeBlock_with ex consequent sc s1 = Ok (r, s')" by simp
      from blockD[OF this h1] show ?thesis .
    next
      case False
      with 2 have "execute_elifs ev ex elifs alternate sc s1 = Ok (r, s')" by simp
      from elifsD[OF this h1] show ?thesis .
    qed
  next
    case (WhileStatement test body)
    with run have "wl test body sc s = Ok (r, s')" by (simp add: executeStatement_step_def)
    from preservesD[OF wl this h] show ?thesis .
  next
    case (ForStatement iterator start finish body)
    with run obtain v1 s1 v2 s2 where 1: "ev start sc s = Ok (v1, s1)" and 2: "ev finish sc s1 = Ok (v2, s2)"
      and 3: "fl iterator (js_Number h v1) (js_Number h v2) body sc s2 = Ok (r, s')"
      by (simp add: executeStatement_step_def) (erule andThen_pair_OkE, erule andThen_pair_OkE)
    from preservesD[OF fl 3 evD[OF 2 evD[OF 1 h]]] show ?thesis .
  next
    case (ReturnStatement val)
    with run obtain v s1 where 1: "ev val sc s = Ok (v, s1)" and 2: "s' = Scope_set s1 sc ''__ret__'' v"
      by (simp add: executeStatement_step_def) (erule andThen_pair_OkE, simp)
    from evD[OF 1 h] 2 show ?thesis by (simp add: has_Scope_set_keep)
  next
    case BreakStatement
    with run h show ?thesis by (auto simp: executeStatement_step_def has_Scope_set_keep)
  next
    case ContinueStatement
    with run h show ?thesis by (auto simp: executeStatement_step_def has_Scope_set_keep)
  next
    case (ExpressionStatement e)
    with run have "ev e sc s = Ok (r, s')" by (simp add: executeStatement_step_def)
    from evD[OF this h] show ?thesis .
  qed
qed

lemma while_step_keeps:
  assumes ev: "\<And>e c. preserves R a (ev e c)" and ex: "\<And>x c. preserves R a (ex x c)"
    and wl: "\<And>t b c. preserves R a (wl t b c)"
    and R: "R \<noteq> ''__break__''" "R \<noteq> ''__continue__''"
  shows "preserves R a (while_step ev ex wl test body sc)"
proof (rule preservesI)
  fix s r s'
  assume run: "while_step ev ex wl test body sc s = Ok (r, s')" and h: "has s a R"
  show "has s' a R"
  proof (cases "stop s")
    case True
    with run h show ?thesis by (simp add: while_step_def)
  next
    case False
    with run obtain t s1 where 1: "ev test sc s = Ok (t, s1)" and
      2: "(if \<not> truthy t then Ok (VUndefined, s1)
           else andThen (executeBlock_with ex body sc s1) (\<lambda>(r, s2).
                  if has s2 sc ''__ret__'' then Ok (VUndefined, s2)
                  else if has s2 sc ''__break__'' then Ok (VUndefined, Scope_delete s2 sc ''__break__'')
                  else wl test body sc
                         (if has s2 sc ''__continue__'' then Scope_delete s2 sc ''__continue__'' else s2)))
          = Ok (r, s')"
      by (simp add: while_step_def) (erule andThen_pair_OkE)
    from preservesD[OF ev 1 h] have h1: "has s1 a R" .
    show ?thesis
    proof (cases "truthy t")
      case False
      with 2 h1 show ?thesis by simp
    next
      case True
      with 2 obtain r2 s2 where 3: "executeBlock_with ex body sc s1 = Ok (r2, s2)" and
        4: "(if has s2 sc ''__ret__'' then Ok (VUndefined, s2)
             else if has s2 sc ''__break__'' then Ok (VUndefined, Scope_delete s2 sc ''__break__'')
             else wl test body sc
                    (if has s2 sc ''__continue__'' then Scope_delete s2 sc ''__continue__'' else s2))
            = Ok (r, s')"
        by simp (erule andThen_pair_OkE)
      from preservesD[OF executeBlock_with_keeps[OF ex] 3 h1] have h2: "has s2 a R" .
      then have h3: "has (Scope_delete s2 sc ''__break__'') a R"
        and h4: "has (if has s2 sc ''__continue__'' then Scope_delete s2 sc ''__continue__'' else s2) a R"
        using R by (simp_all add: has_Scope_delete_keep)
      from 4 consider "s' = s2" | "s' = Scope_delete s2 sc ''__break__''"
        | "wl test body sc (if has s2 sc ''__continue__'' then Scope_delete s2 sc ''__continue__'' else s2)
             = Ok (r, s')"
        by (auto split: if_splits)
      then show ?thesis
      proof cases
        case 1
        with h2 show ?thesis by simp
      next
        case 2
        with h3 show ?thesis by simp
      next
        case 3
        from preservesD[OF wl 3 h4] show ?thesis .
      qed
    qed
  qed
qed

lemma for_step_keeps:
  assumes ex: "\<And>x c. preserves R a (ex x c)"
    and fl: "\<And>it i e b c. preserves R a (fl it i e b c)"
  shows "preserves R a (for_step ex fl iterator i e body sc)"
proof (rule preservesI)
  fix s r s'
  assume run: "for_step ex fl iterator i e body sc s = Ok (r, s')" and h: "has s a R"
  show "has s' a R"
  proof (cases "\<not> num_le i e \<or> stop s")
    case True
    with run h show ?thesis by (auto simp: for_step_def split: if_splits)
  next
    case False
    with run obtain r1 s1 where
      1: "executeBlock_with ex body sc (Scope_set s sc iterator (VNum i)) = Ok (r1, s1)" and
      2: "(if has s1 sc ''__ret__'' then Ok (VUndefined, s1)
           else fl iterator (num_succ i) e body sc s1) = Ok (r, s')"
      by (simp add: for_step_def) (erule andThen_pair_OkE)
    from h have "has (Scope_set s sc iterator (VNum i)) a R" by (rule has_Scope_set_keep)
    from preservesD[OF executeBlock_with_keeps[OF ex] 1 this] have h1: "has s1 a R" .
    from 2 consider "s' = s1" | "fl iterator (num_succ i) e body sc s1 = Ok (r, s')"
      by (auto split: if_splits)
    then show ?thesis
    proof cases
      case 1
      with h1 show ?thesis by simp
    next
      case 2
      from preservesD[OF fl 2 h1] show ?thesis .
    qed
  qed
qed

text \<open>
  No computation of the interpreter removes a binding, the break and continue flags
  apart: a frame that binds a name still binds it when the computation returns.
\<close>

lemma interp_keeps:
  assumes "R \<noteq> ''__break__''" "R \<noteq> ''__continue__''"
  shows "preserves R a (interp n h t)"
proof (induction n arbitrary: t)
  case 0
  show ?case by (rule preservesI) simp
next
  case (Suc n)
  have ev: "\<And>e c. preserves R a ((\<lambda>e c. interp n h (Evaluate e c)) e c)"
    and ex: "\<And>x c. preserves R a ((\<lambda>x c. interp n h (Execute x c)) x c)"
    and wl: "\<And>t b c. preserves R a ((\<lambda>t b c. interp n h (WhileLoop t b c)) t b c)"
    and fl: "\<And>it i e b c. preserves R a ((\<lambda>it i e b c. interp n h (ForLoop it i e b c)) it i e b c)"
    by (simp_all add: Suc.IH)
  show ?case
  proof (cases t)
    case (Evaluate node sc)
    have "interp (Suc n) h t = evaluate_step (\<lambda>e c. interp n h (Evaluate e c))
            (\<lambda>x c. interp n h (Execute x c)) h node sc"
      by (rule ext) (simp add: Evaluate)
    then show ?thesis using evaluate_step_keeps[OF ev ex] by simp
  next
    case (Execute node sc)
    have "interp (Suc n) h t = executeStatement_step (\<lambda>e c. interp n h (Evaluate e c))
            (\<lambda>x c. interp n h (Execute x c)) (\<lambda>t b c. interp n h (WhileLoop t b c))
            (\<lambda>it i e b c. interp n h (ForLoop it i e b c)) h node sc"
      by (rule ext) (simp add: Execute)
    then show ?thesis using executeStatement_step_keeps[OF ev ex wl fl] by simp
  next
    case (WhileLoop test body sc)
    have "interp (Suc n) h t = while_step (\<lambda>e c. interp n h (Evaluate e c))
            (\<lambda>x c. interp n h (Execute x c)) (\<lambda>t b c. interp n h (WhileLoop t b c)) test body sc"
      by (rule ext) (simp add: WhileLoop)
    then show ?thesis using while_step_keeps[OF ev ex wl assms] by simp
  next
    case (ForLoop iterator i e body sc)
    have "interp (Suc n) h t = for_step (\<lambda>x c. interp n h (Execute x c))
            (\<lambda>it i e b c. interp n h (ForLoop it i e b c)) iterator i e body sc"
      by (rule ext) (simp add: ForLoop)
    then show ?thesis using for_step_keeps[OF ex fl] by simp
  qed
qed

lemma executeStatement_keeps:
  assumes "R \<noteq> ''__break__''" "R \<noteq> ''__continue__''"
    and "executeStatement n h node sc s = Ok (r, s')" and "has s a R"
  shows "has s' a R"
  using preservesD[OF interp_keeps[OF assms(1,2)], of n h "Execute node sc" s r s' a] assms(3,4)
  by (simp add: executeStatement_def)


lemma run_keeps:
  assumes "R \<noteq> ''__break__''" "R \<noteq> ''__continue__''"
    and "run n h body s = Ok (r, s')" and "has s a R"
  shows "has s' a R"
proof -
  have ex: "\<And>x c. preserves R a (executeStatement n h x c)"
    using interp_keeps[OF assms(1,2)] by (simp add: executeStatement_def[abs_def])
  from assms(4) have "has (s\<lparr>stop := False\<rparr>) a R" by simp
  from preservesD[OF executeBlock_with_keeps[OF ex] _ this] assms(3)
  show ?thesis by (simp add: run_def executeBlock_def)
qed

lemma run_with_sentinel:
  assumes "has s globals ''__ret__''"
  shows "run n h (st # rest) s =
           andThen (executeStatement n h st globals (s\<lparr>stop := False\<rparr>))
             (\<lambda>(r, s1). Ok (Scope_get s1 globals ''__ret__'', s1))"
proof (cases "executeStatement n h st globals (s\<lparr>stop := False\<rparr>)")
  case (Ok x)
  obtain r s1 where x: "x = (r, s1)" by (cases x)
  from assms have "has (s\<lparr>stop := False\<rparr>) globals ''__ret__''" by simp
  from executeStatement_keeps[OF _ _ Ok[unfolded x] this] have "has s1 globals ''__ret__''" by simp
  with Ok x show ?thesis
    by (simp add: run_def executeBlock_def executeBlock_with_def)
qed (simp_all add: run_def executeBlock_def executeBlock_with_def)

lemma top_level_return:
  assumes "evaluate n h val globals (s\<lparr>stop := False\<rparr>) = Ok (v, s1)" and "globals < length (frames s1)"
  shows "run (Suc n) h (ReturnStatement val # rest) s = Ok (v, Scope_set s1 globals ''__ret__'' v)"
proof -
  have 1: "executeStatement (Suc n) h (ReturnStatement val) globals (s\<lparr>stop := False\<rparr>)
             = Ok (VUndefined, Scope_set s1 globals ''__ret__'' v)"
    using assms(1) by (simp add: executeStatement_Suc executeStatement_step_def)
  have 2: "has (Scope_set s1 globals ''__ret__'' v) globals ''__ret__''"
    using assms(2) by (simp add: has_Scope_set)
  have 3: "Scope_get (Scope_set s1 globals ''__ret__'' v) globals ''__ret__'' = v"
    using assms(2) by (subst Scope_get.simps) (simp add: frame_at_Scope_set update_conv')
  from 1 2 3 show ?thesis
    by (simp add: run_def executeBlock_def executeBlock_with_def)
qed

lemma Scope_get_own: "has s a name \<Longrightarrow>
   Scope_get s a name = (case map_of (valuesMap (frame_at s a)) name of Some v \<Rightarrow> v | None \<Rightarrow> VUndefined)"
  by (subst Scope_get.simps) (auto simp: has_def)

text \<open>
  Claim C10, as the code has it. A \<open>return\<close> at top level binds the sentinel
  \<open>__ret__\<close> in the global frame and \<open>run\<close> returns its value. Once the global frame
  binds the sentinel, every later \<open>run\<close> that returns leaves it bound; a later \<open>run\<close>
  of a program that is not empty executes the first statement only, whatever follows
  it, and returns the value the sentinel has after that statement. That value is the
  stale one whenever the statement has left the binding of the sentinel as it was.
\<close>

theorem return_sentinel_persists:
  "(\<forall>val v s1 rest.
      evaluate n h val globals (s\<lparr>stop := False\<rparr>) = Ok (v, s1) \<and> globals < length (frames s1) \<longrightarrow>
      run (Suc n) h (ReturnStatement val # rest) s = Ok (v, Scope_set s1 globals ''__ret__'' v) \<and>
      has (Scope_set s1 globals ''__ret__'' v) globals ''__ret__'') \<and>
   (has s globals ''__ret__'' \<longrightarrow>
      (\<forall>body r s'. run n h body s = Ok (r, s') \<longrightarrow> has s' globals ''__ret__'') \<and>
      (\<forall>st rest. run n h (st # rest) s =
                   andThen (executeStatement n h st globals (s\<lparr>stop := False\<rparr>))
                     (\<lambda>(r, s1). Ok (Scope_get s1 globals ''__ret__'', s1))) \<and>
      (\<forall>st rest r s'. run n h (st # rest) s = Ok (r, s') \<and>
          map_of (valuesMap (frame_at s' globals)) ''__ret__'' = map_of (valuesMap (frame_at s globals)) ''__ret__''
          \<longrightarrow> r = Scope_get s globals ''__ret__''))"
proof (intro conjI allI impI)
  fix val v s1 rest
  assume a: "evaluate n h val globals (s\<lparr>stop := False\<rparr>) = Ok (v, s1) \<and> globals < length (frames s1)"
  then show "run (Suc n) h (ReturnStatement val # rest) s = Ok (v, Scope_set s1 globals ''__ret__'' v)"
    by (simp add: top_level_return)
  from a show "has (Scope_set s1 globals ''__ret__'' v) globals ''__ret__''"
    by (simp add: has_Scope_set)
next
  fix body r s'
  assume "has s globals ''__ret__''" "run n h body s = Ok (r, s')"
  then show "has s' globals ''__ret__''"
    using run_keeps[of "''__ret__''" n h body s r s' globals] by simp
next
  fix st rest
  assume "has s globals ''__ret__''"
  then show "run n h (st # rest) s =
               andThen (executeStatement n h st globals (s\<lparr>stop := False\<rparr>))
                 (\<lambda>(r, s1). Ok (Scope_get s1 globals ''__ret__'', s1))"
    by (rule run_with_sentinel)
next
  fix st rest r s'
  assume h: "has s globals ''__ret__''"
    and a: "run n h (st # rest) s = Ok (r, s') \<and>
          map_of (valuesMap (frame_at s' globals)) ''__ret__'' = map_of (valuesMap (frame_at s globals)) ''__ret__''"
  from a h have h': "has s' globals ''__ret__''"
    using run_keeps[of "''__ret__''" n h "st # rest" s r s' globals] by simp
  from a have "andThen (executeStatement n h st globals (s\<lparr>stop := False\<rparr>))
                 (\<lambda>(r, s1). Ok (Scope_get s1 globals ''__ret__'', s1)) = Ok (r, s')"
    by (simp add: run_with_sentinel[OF h])
  then have "r = Scope_get s' globals ''__ret__''"
    by (auto elim!: andThen_pair_OkE)
  with a h h' show "r = Scope_get s globals ''__ret__''"
    by (simp add: Scope_get_own)
qed

text \<open>
  Against claim C10 as stated: after the program \<^verbatim>\<open>return = 1\<close> a later run of
  \<^verbatim>\<open>return = 7\<close> returns 7, not the stale 1: its first statement binds the sentinel
  anew. A later run of the empty program returns null.
\<close>

theorem second_return_not_stale:
  "run 10 bare_host return_1_program (Interpreter []) = Ok (VNum (Fin 1), returned_state) \<and>
   Scope_get returned_state globals ''__ret__'' = VNum (Fin 1) \<and>
   run 10 bare_host return_7_program returned_state =
     Ok (VNum (Fin 7), Scope_set returned_state globals ''__ret__'' (VNum (Fin 7))) \<and>
   run 10 bare_host [] returned_state = Ok (VNull, returned_state)"
  by code_simp

text \<open>
  After \<^verbatim>\<open>return = 1\<close>, the run of \<^verbatim>\<open>count = 0\<close>, \<^verbatim>\<open>after = 1\<close> returns the stale 1
  and has executed the first assignment only.
\<close>

theorem return_sentinel_persists_witness:
  "evaluate 2 bare_host (num 1) globals ((Interpreter [])\<lparr>stop := False\<rparr>) = Ok (VNum (Fin 1), Interpreter []) \<and>
   globals < length (frames (Interpreter [])) \<and>
   run (Suc 2) bare_host return_1_program (Interpreter []) = Ok (VNum (Fin 1), returned_state) \<and>
   has returned_state globals ''__ret__'' \<and>
   run 3 bare_host two_assignments_program returned_state =
     Ok (VNum (Fin 1), Scope_set returned_state globals ''count'' (VNum (Fin 0))) \<and>
   has (Scope_set returned_state globals ''count'' (VNum (Fin 0))) globals ''__ret__'' \<and>
   find_binding (Scope_set returned_state globals ''count'' (VNum (Fin 0))) globals ''after'' = None"
proof -
  have e: "evaluate 2 bare_host (num 1) globals ((Interpreter [])\<lparr>stop := False\<rparr>) = Ok (VNum (Fin 1), Interpreter [])"
    by code_simp
  have g: "globals < length (frames (Interpreter []))" by code_simp
  have s: "Scope_set (Interpreter []) globals ''__ret__'' (VNum (Fin 1)) = returned_state" by code_simp
  have hr: "has returned_state globals ''__ret__''" by code_simp
  have x: "executeStatement 3 bare_host (Assignment ''count'' ''='' (num 0)) globals (returned_state\<lparr>stop := False\<rparr>)
             = Ok (VUndefined, Scope_set returned_state globals ''count'' (VNum (Fin 0)))"
    by code_simp
  have v: "Scope_get (Scope_set returned_state globals ''count'' (VNum (Fin 0))) globals ''__ret__'' = VNum (Fin 1)"
    by code_simp
  have f: "find_binding (Scope_set returned_state globals ''count'' (VNum (Fin 0))) globals ''after'' = None"
    by code_simp
  note T1 = return_sentinel_persists[of 2 bare_host "Interpreter []", THEN conjunct1, rule_format, of "num 1" "VNum (Fin 1)" "Interpreter []" "[]"]
  note T2 = return_sentinel_persists[of 3 bare_host returned_state, THEN conjunct2, rule_format, OF hr]
  from T1 e g s have r1: "run (Suc 2) bare_host return_1_program (Interpreter []) = Ok (VNum (Fin 1), returned_state)"
    by (simp add: return_1_program_def)
  from T2[THEN conjunct2, THEN conjunct1, rule_format, of "Assignment ''count'' ''='' (num 0)" "[Assignment ''after'' ''='' (num 1)]"] x v
  have r2: "run 3 bare_host two_assignments_program returned_state =
     Ok (VNum (Fin 1), Scope_set returned_state globals ''count'' (VNum (Fin 0)))"
    by (simp add: two_assignments_program_def)
  from T2[THEN conjunct1, rule_format, OF r2]
  have k: "has (Scope_set returned_state globals ''count'' (VNum (Fin 0))) globals ''__ret__''" .
  from e g r1 hr r2 k f show ?thesis by simp
qed

section \<open>The two interpreters compared\<close>

lemma Map_get_Scope_set:
  "a < length (frames s) \<Longrightarrow> Map_get (Scope_set s a name v) a name = v"
  by (simp add: Map_get_def frame_at_Scope_set update_conv')

lemma older_assignment_result:
  assumes "evaluateExpression n h value sc s = Ok (v, s1)" and "\<not> stop s"
    and "op \<in> set [''+='', ''-='', ''*='', ''/='']"
  shows "executeStatement_sq (Suc n) h (Assignment name op value) sc s =
           Ok (VUndefined,
               Scope_set s1 (if has s1 sc name then sc else globals) name
                 (js_binop h (butlast op)
                    (if truthy (Map_get s1 (if has s1 sc name then sc else globals) name)
                     then Map_get s1 (if has s1 sc name then sc else globals) name else VNum (Fin 0)) v))"
  using assms
  by (auto simp: executeStatement_sq_Suc executeStatement_sq_step_def Let_def)

text \<open>
  Claim C5 fails in the older interpreter, which has no chain of frames: a call runs in
  a copy of the scope of the declaration, and an assignment writes into that copy if it
  has the name and into the global scope otherwise. In the script below the global
  \<open>x\<close> is 1 when \<open>f\<close> is called. The assignment \<^verbatim>\<open>x = 2\<close> in the body changes the copy
  and leaves the global \<open>x\<close> at 1, where the claim has the existing binding changed in
  place; the assignment \<^verbatim>\<open>y = 3\<close> makes a global \<open>y\<close>, where the claim has the new
  binding made in the innermost frame, that of the call. The current interpreter does
  both as the claim says: the global \<open>x\<close> becomes 2 and \<open>y\<close> is bound in the frame of the
  call only.
\<close>

theorem call_assignment_bypasses_chain:
  "run_sq 10 bare_host shadowing_program (Interpreter_sq []) =
     Ok (VUndefined,
         \<lparr>frames =
            [\<lparr>valuesMap =
                [(''print'', VHostFunction ''print''),
                 (''input'', VHostFunction ''input''),
                 (''x'', VNum (Fin 1)),
                 (''f'', VClosure [] [Assignment ''x'' ''='' (num 2), Assignment ''y'' ''='' (num 3)] 0),
                 (''y'', VNum (Fin 3))],
              parent = None\<rparr>,
             \<lparr>valuesMap =
                [(''print'', VHostFunction ''print''),
                 (''input'', VHostFunction ''input''),
                 (''x'', VNum (Fin 2)),
                 (''f'', VClosure [] [Assignment ''x'' ''='' (num 2), Assignment ''y'' ''='' (num 3)] 0)],
              parent = None\<rparr>],
          objects = [], evalCache = [], stop = False, opCounter = 0\<rparr>) \<and>
   run 10 bare_host shadowing_program (Interpreter []) =
     Ok (VUndefined,
         \<lparr>frames =
            [\<lparr>valuesMap =
                [(''print'', VHostFunction ''print''),
                 (''activateCanvas'', VHostFunction ''activateCanvas''),
                 (''x'', VNum (Fin 2)),
                 (''f'', VClosure [] [Assignment ''x'' ''='' (num 2), Assignment ''y'' ''='' (num 3)] 0)],
              parent = None\<rparr>,
             \<lparr>valuesMap = [(''y'', VNum (Fin 3))], parent = Some 0\<rparr>],
          objects = [], evalCache = [], stop = False, opCounter = 5\<rparr>)"
  by code_simp

text \<open>
  Claim C7 fails in the older interpreter. The body of an object definition runs in a
  new \<open>Map\<close>, but its assignments are those of any other statement: a name that the
  \<open>Map\<close> does not have yet is written into the global scope. The definition of \<open>Foo\<close>
  with the body \<^verbatim>\<open>x = 1\<close> makes a global \<open>x\<close> and an object without properties,
  where the claim has the body run in a frame of its own with no access to the scope
  around it. In the current interpreter the same definition gives an object with the
  property \<open>x\<close> and no global \<open>x\<close>.
\<close>

theorem object_body_assigns_global:
  "run_sq 10 bare_host object_program (Interpreter_sq []) =
     Ok (VUndefined,
         \<lparr>frames =
            [\<lparr>valuesMap =
                [(''print'', VHostFunction ''print''),
                 (''input'', VHostFunction ''input''),
                 (''x'', VNum (Fin 1)),
                 (''Foo'', VObject 0)],
              parent = None\<rparr>,
             \<lparr>valuesMap = [], parent = None\<rparr>],
          objects = [[]], evalCache = [], stop = False, opCounter = 0\<rparr>) \<and>
   run 10 bare_host object_program (Interpreter []) =
     Ok (VUndefined,
         \<lparr>frames =
            [\<lparr>valuesMap =
                [(''print'', VHostFunction ''print''),
                 (''activateCanvas'', VHostFunction ''activateCanvas''),
                 (''Foo'', VObject 0)],
              parent = None\<rparr>,
             \<lparr>valuesMap = [(''x'', VNum (Fin 1))], parent = None\<rparr>],
          objects = [[(''x'', VNum (Fin 1))]], evalCache = [], stop = False, opCounter = 2\<rparr>)"
  by code_simp

text \<open>
  Claim C9, in both interpreters, for the four compound operators.
  In the current interpreter: when no frame of the chain binds the name (as seen once
  the right-hand side has been evaluated), the statement raises no error and makes the
  binding in the current frame, with the result of the operator on 0 and the value of
  the right-hand side; the other bindings and frames stay as they were, and the name
  then reads as that result. More generally 0 stands for any current value that is
  falsy, the binding written being the one the walk finds.
  In the older interpreter: when neither the current scope nor the global scope has the
  name, the statement raises no error and makes the binding in the global scope, with
  the same value.
\<close>

theorem compound_assignment_unbound:
  assumes "op \<in> set [''+='', ''-='', ''*='', ''/='']"
  shows "(\<forall>v s1. evaluate n h value sc s = Ok (v, s1) \<and> sc < length (frames s1) \<and>
                 find_binding s1 sc name = None \<longrightarrow>
            (let w = js_binop h (butlast op) (VNum (Fin 0)) v;
                 s2 = Scope_set s1 sc name w
             in executeStatement (Suc n) h (Assignment name op value) sc s = Ok (VUndefined, s2) \<and>
                has s2 sc name \<and>
                find_binding s2 sc name = Some sc \<and>
                Scope_get s2 sc name = w \<and>
                map_of (valuesMap (frame_at s2 sc)) = (map_of (valuesMap (frame_at s1 sc)))(name \<mapsto> w) \<and>
                (\<forall>g. g \<noteq> sc \<longrightarrow> frame_at s2 g = frame_at s1 g))) \<and>
         (\<forall>v s1. evaluate n h value sc s = Ok (v, s1) \<and> sc < length (frames s1) \<and>
                 \<not> truthy (Scope_get s1 sc name) \<longrightarrow>
            (let target = (case find_binding s1 sc name of Some f \<Rightarrow> f | None \<Rightarrow> sc);
                 w = js_binop h (butlast op) (VNum (Fin 0)) v;
                 s2 = Scope_set s1 target name w
             in executeStatement (Suc n) h (Assignment name op value) sc s = Ok (VUndefined, s2) \<and>
                has s2 target name \<and>
                Scope_get s2 sc name = w \<and>
                (\<forall>g. g \<noteq> target \<longrightarrow> frame_at s2 g = frame_at s1 g))) \<and>
         (\<forall>v s1. evaluateExpression n h value sc s = Ok (v, s1) \<and> \<not> stop s \<and>
                 globals < length (frames s1) \<and> \<not> has s1 sc name \<and> \<not> has s1 globals name \<longrightarrow>
            (let w = js_binop h (butlast op) (VNum (Fin 0)) v;
                 s2 = Scope_set s1 globals name w
             in executeStatement_sq (Suc n) h (Assignment name op value) sc s = Ok (VUndefined, s2) \<and>
                has s2 globals name \<and>
                Map_get s2 globals name = w \<and>
                (\<forall>g. g \<noteq> globals \<longrightarrow> frame_at s2 g = frame_at s1 g)))"
proof -
  have falsy: "executeStatement (Suc n) h (Assignment name op value) sc s = Ok (VUndefined, s2) \<and>
               has s2 t name \<and> Scope_get s2 sc name = w \<and>
               map_of (valuesMap (frame_at s2 t)) = (map_of (valuesMap (frame_at s1 t)))(name \<mapsto> w) \<and>
               (\<forall>g. g \<noteq> t \<longrightarrow> frame_at s2 g = frame_at s1 g) \<and>
               find_binding s2 sc name = Some t"
    if a: "evaluate n h value sc s = Ok (v, s1)" "sc < length (frames s1)"
          "\<not> truthy (Scope_get s1 sc name)"
      and t: "t = (case find_binding s1 sc name of Some f \<Rightarrow> f | None \<Rightarrow> sc)"
      and w: "w = js_binop h (butlast op) (VNum (Fin 0)) v"
      and s2: "s2 = Scope_set s1 t name w"
    for v s1 t w s2
  proof -
    have tr: "t < length (frames s1)"
      using a(2) t by (auto split: option.splits dest: find_binding_has has_in_range)
    have run: "executeStatement (Suc n) h (Assignment name op value) sc s = Ok (VUndefined, s2)"
      using assms a(3) assignment_result[OF a(1), of name op] by (auto simp: Let_def t w s2)
    have fr: "map_of (valuesMap (frame_at s2 t)) = (map_of (valuesMap (frame_at s1 t)))(name \<mapsto> w) \<and>
              (\<forall>g. g \<noteq> t \<longrightarrow> frame_at s2 g = frame_at s1 g)"
      using tr by (auto simp: s2 frame_at_Scope_set update_conv')
    have bound: "has s2 t name"
      using tr by (simp add: s2 has_Scope_set)
    have get: "Scope_get s2 sc name = w"
      using Scope_get_after_set[OF a(2), of name w] by (simp add: s2 t)
    have fb: "find_binding s2 sc name = Some t"
      using find_binding_after_set[OF a(2), of name w] by (simp add: s2 t)
    from run fr bound get fb show ?thesis by simp
  qed
  have unbound_falsy: "\<not> truthy (Scope_get s1 sc name)" if "find_binding s1 sc name = None" for s1
    using that by (simp add: Scope_get_unbound truthy_def)
  have older: "executeStatement_sq (Suc n) h (Assignment name op value) sc s = Ok (VUndefined, s2) \<and>
               has s2 globals name \<and> Map_get s2 globals name = w \<and>
               (\<forall>g. g \<noteq> globals \<longrightarrow> frame_at s2 g = frame_at s1 g)"
    if a: "evaluateExpression n h value sc s = Ok (v, s1)" "\<not> stop s" "globals < length (frames s1)"
          "\<not> has s1 sc name" "\<not> has s1 globals name"
      and w: "w = js_binop h (butlast op) (VNum (Fin 0)) v"
      and s2: "s2 = Scope_set s1 globals name w"
    for v s1 w s2
  proof -
    have cur: "Map_get s1 globals name = VUndefined"
      using a(5) by (auto simp: Map_get_def has_def)
    have run: "executeStatement_sq (Suc n) h (Assignment name op value) sc s = Ok (VUndefined, s2)"
      using a(4) older_assignment_result[OF a(1,2) assms, of name]
      by (simp add: cur truthy_def w s2)
    with a(3) show ?thesis
      by (simp add: s2 has_Scope_set Map_get_Scope_set frame_at_Scope_set)
  qed
  show ?thesis
  proof (intro conjI allI impI)
    fix v s1
    assume h: "evaluate n h value sc s = Ok (v, s1) \<and> sc < length (frames s1) \<and>
               find_binding s1 sc name = None"
    then have t: "sc = (case find_binding s1 sc name of Some f \<Rightarrow> f | None \<Rightarrow> sc)" by simp
    from h falsy[OF _ _ unbound_falsy t refl refl, of v]
    show "let w = js_binop h (butlast op) (VNum (Fin 0)) v; s2 = Scope_set s1 sc name w
          in executeStatement (Suc n) h (Assignment name op value) sc s = Ok (VUndefined, s2) \<and>
             has s2 sc name \<and>
             find_binding s2 sc name = Some sc \<and>
             Scope_get s2 sc name = w \<and>
             map_of (valuesMap (frame_at s2 sc)) = (map_of (valuesMap (frame_at s1 sc)))(name \<mapsto> w) \<and>
             (\<forall>g. g \<noteq> sc \<longrightarrow> frame_at s2 g = frame_at s1 g)"
      unfolding Let_def by blast
  next
    fix v s1
    assume h: "evaluate n h value sc s = Ok (v, s1) \<and> sc < length (frames s1) \<and>
               \<not> truthy (Scope_get s1 sc name)"
    from h falsy[OF _ _ _ refl refl refl, of v s1]
    show "let target = (case find_binding s1 sc name of Some f \<Rightarrow> f | None \<Rightarrow> sc);
              w = js_binop h (butlast op) (VNum (Fin 0)) v;
              s2 = Scope_set s1 target name w
          in executeStatement (Suc n) h (Assignment name op value) sc s = Ok (VUndefined, s2) \<and>
             has s2 target name \<and>
             Scope_get s2 sc name = w \<and>
             (\<forall>g. g \<noteq> target \<longrightarrow> frame_at s2 g = frame_at s1 g)"
      unfolding Let_def by blast
  next
    fix v s1
    assume h: "evaluateExpression n h value sc s = Ok (v, s1) \<and> \<not> stop s \<and>
               globals < length (frames s1) \<and> \<not> has s1 sc name \<and> \<not> has s1 globals name"
    from h older[OF _ _ _ _ _ refl refl, of v s1]
    show "let w = js_binop h (butlast op) (VNum (Fin 0)) v; s2 = Scope_set s1 globals name w
          in executeStatement_sq (Suc n) h (Assignment name op value) sc s = Ok (VUndefined, s2) \<and>
             has s2 globals name \<and>
             Map_get s2 globals name = w \<and>
             (\<forall>g. g \<noteq> globals \<longrightarrow> frame_at s2 g = frame_at s1 g)"
      unfolding Let_def by blast
  qed
qed

text \<open>
  \<^verbatim>\<open>x += 5\<close> in a fresh interpreter binds \<open>x\<close> to 5 in the global frame, in the current
  interpreter and in the older one.
\<close>

theorem compound_assignment_unbound_witness:
  "''+='' \<in> set [''+='', ''-='', ''*='', ''/=''] \<and>
   evaluate 1 bare_host (num 5) 0 (Interpreter []) = Ok (VNum (Fin 5), Interpreter []) \<and>
   0 < length (frames (Interpreter [])) \<and>
   find_binding (Interpreter []) 0 ''x'' = None \<and>
   executeStatement (Suc 1) bare_host (Assignment ''x'' ''+='' (num 5)) 0 (Interpreter []) =
     Ok (VUndefined, Scope_set (Interpreter []) 0 ''x'' (VNum (Fin 5))) \<and>
   has (Scope_set (Interpreter []) 0 ''x'' (VNum (Fin 5))) 0 ''x'' \<and>
   Scope_get (Scope_set (Interpreter []) 0 ''x'' (VNum (Fin 5))) 0 ''x'' = VNum (Fin 5) \<and>
   evaluateExpression 1 bare_host (num 5) globals (Interpreter_sq []) = Ok (VNum (Fin 5), Interpreter_sq []) \<and>
   \<not> stop (Interpreter_sq []) \<and> globals < length (frames (Interpreter_sq [])) \<and>
   \<not> has (Interpreter_sq []) globals ''x'' \<and>
   executeStatement_sq (Suc 1) bare_host (Assignment ''x'' ''+='' (num 5)) globals (Interpreter_sq []) =
     Ok (VUndefined, Scope_set (Interpreter_sq []) globals ''x'' (VNum (Fin 5))) \<and>
   Map_get (Scope_set (Interpreter_sq []) globals ''x'' (VNum (Fin 5))) globals ''x'' = VNum (Fin 5)"
proof -
  have o: "''+='' \<in> set [''+='', ''-='', ''*='', ''/='']" by simp
  have e: "evaluate 1 bare_host (num 5) 0 (Interpreter []) = Ok (VNum (Fin 5), Interpreter [])"
    by code_simp
  have l: "0 < length (frames (Interpreter []))" by code_simp
  have u: "find_binding (Interpreter []) 0 ''x'' = None" by code_simp
  have v: "js_binop bare_host (butlast ''+='') (VNum (Fin 0)) (VNum (Fin 5)) = VNum (Fin 5)"
    by code_simp
  have e': "evaluateExpression 1 bare_host (num 5) globals (Interpreter_sq []) = Ok (VNum (Fin 5), Interpreter_sq [])"
    by code_simp
  have st: "\<not> stop (Interpreter_sq [])" by code_simp
  have l': "globals < length (frames (Interpreter_sq []))" by code_simp
  have u': "\<not> has (Interpreter_sq []) globals ''x''" by code_simp
  have h1: "evaluate 1 bare_host (num 5) 0 (Interpreter []) = Ok (VNum (Fin 5), Interpreter []) \<and>
            0 < length (frames (Interpreter [])) \<and> find_binding (Interpreter []) 0 ''x'' = None"
    using e l u by (intro conjI)
  have h2: "evaluateExpression 1 bare_host (num 5) globals (Interpreter_sq []) = Ok (VNum (Fin 5), Interpreter_sq []) \<and>
            \<not> stop (Interpreter_sq []) \<and> globals < length (frames (Interpreter_sq [])) \<and>
            \<not> has (Interpreter_sq []) globals ''x'' \<and> \<not> has (Interpreter_sq []) globals ''x''"
    using e' st l' u' by (intro conjI)
  note T = compound_assignment_unbound[OF o, of 1 bare_host "num 5" 0 "Interpreter []" "''x''",
             THEN conjunct1, rule_format, OF h1]
  note T' = compound_assignment_unbound[OF o, of 1 bare_host "num 5" globals "Interpreter_sq []" "''x''",
              THEN conjunct2, THEN conjunct2, rule_format, OF h2]
  from T
  have a: "executeStatement (Suc 1) bare_host (Assignment ''x'' ''+='' (num 5)) 0 (Interpreter []) =
             Ok (VUndefined, Scope_set (Interpreter []) 0 ''x'' (VNum (Fin 5))) \<and>
           has (Scope_set (Interpreter []) 0 ''x'' (VNum (Fin 5))) 0 ''x'' \<and>
           Scope_get (Scope_set (Interpreter []) 0 ''x'' (VNum (Fin 5))) 0 ''x'' = VNum (Fin 5)"
    by (simp only: Let_def v)
  from T'
  have b: "executeStatement_sq (Suc 1) bare_host (Assignment ''x'' ''+='' (num 5)) globals (Interpreter_sq []) =
             Ok (VUndefined, Scope_set (Interpreter_sq []) globals ''x'' (VNum (Fin 5))) \<and>
           Map_get (Scope_set (Interpreter_sq []) globals ''x'' (VNum (Fin 5))) globals ''x'' = VNum (Fin 5)"
    by (simp only: Let_def v)
  from o e l u a e' st l' u' b show ?thesis by (intro conjI) simp_all
qed



end
